theory Spec2Isabelle
  imports Main
begin

section \<open>The declaration reflection builder of typedoc\<close>

text \<open>
  A shallow embedding of \<^verbatim>\<open>src/lib/converter/factories/declaration.ts\<close>:
  \<^verbatim>\<open>createDeclaration\<close>, \<^verbatim>\<open>setupDeclaration\<close> and \<^verbatim>\<open>mergeDeclarations\<close>.
  Reflections are mutable objects that the code shares by reference (a container's
  \<^verbatim>\<open>children\<close> array holds references, a merge mutates the child it found), so the
  model keeps them in an explicit store and passes the store through every call.
  Constructors and fields that share a name in the source (\<^verbatim>\<open>ReflectionKind.Constructor\<close>
  and \<^verbatim>\<open>ts.SyntaxKind.Constructor\<close>, \<^verbatim>\<open>node.kind\<close> and \<^verbatim>\<open>reflection.kind\<close>) are
  written qualified, as the source writes them.
\<close>

subsection \<open>Enumerations the file imports\<close>

text \<open>
  Modelled from the spec: the enumeration \<^verbatim>\<open>ReflectionKind\<close> of \<^verbatim>\<open>models/index\<close>, which
  is not part of this file. The constructors are the kinds that \<^verbatim>\<open>declaration.ts\<close>
  names; \<open>OtherKind\<close> stands for every kind it does not name (variables, functions,
  type aliases and so on).
\<close>

datatype ReflectionKind =
    ExternalModule | Module | Enum | EnumMember | Class | Interface
  | Constructor | Property | Method | IndexSignature | ConstructorSignature
  | Parameter | TypeLiteral | TypeParameter | Accessor | GetSignature
  | SetSignature | ObjectLiteral | Event | OtherKind nat

text \<open>
  Modelled from the spec: \<^verbatim>\<open>ts.SyntaxKind\<close> of the compiler, the syntax discriminator
  of a node. Only the five values the file compares with are told apart.
\<close>

datatype SyntaxKind =
    VariableDeclaration | FunctionDeclaration | VariableDeclarationList
  | Constructor | ClassDeclaration | OtherSyntaxKind nat

text \<open>
  Modelled from the spec: \<^verbatim>\<open>ts.ModifierFlags\<close>. The source holds the modifiers of a node
  as a bit set and tests a flag with \<^verbatim>\<open>!!(modifiers & ts.ModifierFlags.F)\<close>; the model
  holds the set of flags and tests membership.
\<close>

datatype ModifierFlags =
    Export | Ambient | Public | Private | Protected | Static | Readonly | Abstract
  | OtherModifier nat

text \<open>Modelled from the spec: the enumeration \<^verbatim>\<open>ReflectionFlag\<close> of \<^verbatim>\<open>models/index\<close>.\<close>

datatype ReflectionFlag =
    Private | Protected | Public | Static | Exported | External | Optional
  | ConstructorProperty | Abstract | Readonly | Ambient

text \<open>Modelled from the spec: \<^verbatim>\<open>SourceFileMode\<close> of the converter, a two-valued setting.\<close>

datatype SourceFileMode = File | Modules

subsection \<open>Syntax nodes\<close>

text \<open>
  Modelled from the spec: the part of \<^verbatim>\<open>ts.Symbol\<close> and \<^verbatim>\<open>ts.Node\<close> the file reads.
  \<open>symbolId\<close> and \<open>nodeId\<close> stand for the identity of the object, so that equality of
  values is the source's \<^verbatim>\<open>===\<close>. \<open>combinedModifierFlags\<close> is what the compiler's
  \<^verbatim>\<open>ts.getCombinedModifierFlags\<close> returns for the node, \<open>questionToken\<close> says whether
  \<^verbatim>\<open>node['questionToken']\<close> is present, and an absent \<open>parent\<close>, \<open>symbol\<close> or
  \<open>localSymbol\<close> is \<open>None\<close>.
\<close>

datatype Symbol = Symbol (symbolId: nat) (name: string)

datatype Node = Node
  (nodeId: nat)
  (kind: SyntaxKind)
  (combinedModifierFlags: "ModifierFlags set")
  (localSymbol: "Symbol option")
  (symbol: "Symbol option")
  (questionToken: bool)
  (parent: "Node option")

definition getCombinedModifierFlags :: "Node \<Rightarrow> ModifierFlags set" where
  "getCombinedModifierFlags node = combinedModifierFlags node"

subsection \<open>Reflections and the store\<close>

type_synonym ref = nat

text \<open>
  Modelled from the spec: the opaque reference value that \<^verbatim>\<open>createReferenceType\<close> of
  \<^verbatim>\<open>./reference\<close> builds from a symbol and the flag \<^verbatim>\<open>includeParent\<close>.
\<close>

datatype ReferenceType = ReferenceType "Symbol option" bool

text \<open>
  Modelled from the spec: the flags of a reflection, one boolean per tag, all unset on a
  new reflection.
\<close>

record ReflectionFlags =
  isPrivate :: bool
  isProtected :: bool
  isPublic :: bool
  isStatic :: bool
  isExported :: bool
  isExternal :: bool
  isOptional :: bool
  isConstructorProperty :: bool
  isAbstract :: bool
  isReadonly :: bool
  isAmbient :: bool

definition noFlags :: ReflectionFlags where
  "noFlags = \<lparr>isPrivate = False, isProtected = False, isPublic = False, isStatic = False,
     isExported = False, isExternal = False, isOptional = False,
     isConstructorProperty = False, isAbstract = False, isReadonly = False,
     isAmbient = False\<rparr>"

text \<open>
  Modelled from the spec: a signature of a declaration, which carries its own
  \<^verbatim>\<open>inheritedFrom\<close> and \<^verbatim>\<open>overwrites\<close>. A declaration owns its signatures, and this
  file reaches them only through \<^verbatim>\<open>reflection.getAllSignatures()\<close>, so they are held
  by value inside the declaration.
\<close>

record SignatureReflection =
  name :: string
  inheritedFrom :: "ReferenceType option"
  overwrites :: "ReferenceType option"

text \<open>
  Modelled from the spec: the classes of \<^verbatim>\<open>models/index\<close> that the file tests with
  \<^verbatim>\<open>instanceof\<close>. A project and a declaration are containers.
\<close>

datatype ReflectionClass =
  ProjectReflectionClass | DeclarationReflectionClass | ContainerReflectionClass
  | OtherReflectionClass

text \<open>
  A reflection object. \<open>children = None\<close> is the source's undefined \<^verbatim>\<open>children\<close>;
  the elements of \<open>children\<close> and \<open>parent\<close> are references into the store.
\<close>

record Reflection =
  cls :: ReflectionClass
  parent :: "ref option"
  name :: string
  kind :: ReflectionKind
  flags :: ReflectionFlags
  children :: "ref list option"
  signatures :: "SignatureReflection list"
  inheritedFrom :: "ReferenceType option"
  overwrites :: "ReferenceType option"

definition instanceofContainerReflection :: "Reflection \<Rightarrow> bool" where
  "instanceofContainerReflection r = (cls r \<noteq> OtherReflectionClass)"

definition instanceofProjectReflection :: "Reflection \<Rightarrow> bool" where
  "instanceofProjectReflection r = (cls r = ProjectReflectionClass)"

text \<open>
  Modelled from the spec: \<^verbatim>\<open>new DeclarationReflection(container, name, kind)\<close>, a
  reflection under the container with the given name and kind and nothing else set.
\<close>

definition newDeclarationReflection :: "ref \<Rightarrow> string \<Rightarrow> ReflectionKind \<Rightarrow> Reflection" where
  "newDeclarationReflection container nm k =
     \<lparr>cls = DeclarationReflectionClass, parent = Some container, name = nm, kind = k,
      flags = noFlags, children = None, signatures = [], inheritedFrom = None,
      overwrites = None\<rparr>"

text \<open>
  Modelled from the spec: \<^verbatim>\<open>reflection.setFlag(flag, value)\<close> assigns the one tag of
  the flag and leaves the other tags as they are.
\<close>

fun setFlag :: "ReflectionFlag \<Rightarrow> bool \<Rightarrow> Reflection \<Rightarrow> Reflection" where
  "setFlag ReflectionFlag.Private v r = r\<lparr>flags := (flags r)\<lparr>isPrivate := v\<rparr>\<rparr>"
| "setFlag ReflectionFlag.Protected v r = r\<lparr>flags := (flags r)\<lparr>isProtected := v\<rparr>\<rparr>"
| "setFlag ReflectionFlag.Public v r = r\<lparr>flags := (flags r)\<lparr>isPublic := v\<rparr>\<rparr>"
| "setFlag ReflectionFlag.Static v r = r\<lparr>flags := (flags r)\<lparr>isStatic := v\<rparr>\<rparr>"
| "setFlag ReflectionFlag.Exported v r = r\<lparr>flags := (flags r)\<lparr>isExported := v\<rparr>\<rparr>"
| "setFlag ReflectionFlag.External v r = r\<lparr>flags := (flags r)\<lparr>isExternal := v\<rparr>\<rparr>"
| "setFlag ReflectionFlag.Optional v r = r\<lparr>flags := (flags r)\<lparr>isOptional := v\<rparr>\<rparr>"
| "setFlag ReflectionFlag.ConstructorProperty v r =
     r\<lparr>flags := (flags r)\<lparr>isConstructorProperty := v\<rparr>\<rparr>"
| "setFlag ReflectionFlag.Abstract v r = r\<lparr>flags := (flags r)\<lparr>isAbstract := v\<rparr>\<rparr>"
| "setFlag ReflectionFlag.Readonly v r = r\<lparr>flags := (flags r)\<lparr>isReadonly := v\<rparr>\<rparr>"
| "setFlag ReflectionFlag.Ambient v r = r\<lparr>flags := (flags r)\<lparr>isAmbient := v\<rparr>\<rparr>"

text \<open>
  Modelled from the spec: \<^verbatim>\<open>reflection.kindOf(kinds)\<close>, whether the kind of the
  reflection is one of the given kinds.
\<close>

definition kindOf :: "Reflection \<Rightarrow> ReflectionKind list \<Rightarrow> bool" where
  "kindOf r kinds = (Reflection.kind r \<in> set kinds)"

text \<open>Modelled from the spec: \<^verbatim>\<open>reflection.getAllSignatures()\<close>.\<close>

definition getAllSignatures :: "Reflection \<Rightarrow> SignatureReflection list" where
  "getAllSignatures r = signatures r"

text \<open>
  The store: the object of reference \<open>r\<close> is \<open>heap ! r\<close>, a new object is appended, and
  a reference beyond the store denotes no object.
\<close>

type_synonym heap = "Reflection list"

definition deref :: "heap \<Rightarrow> ref \<Rightarrow> Reflection option" where
  "deref h r = (if r < length h then Some (h ! r) else None)"

subsection \<open>The conversion context\<close>

record Converter =
  mode :: SourceFileMode
  excludeNotExported :: bool

text \<open>
  Modelled from the spec: the fields of \<^verbatim>\<open>Context\<close> the file reads. \<open>scope\<close> is a
  reference into the store.
\<close>

record Context =
  scope :: ref
  isDeclaration :: bool
  isExternal :: bool
  isInherit :: bool
  inheritParent :: "Node option"
  inherited :: "string list"
  converter :: Converter

datatype ConverterEvent = EVENT_CREATE_DECLARATION

text \<open>
  The state a call works on: the store, and the two collaborators of the context that
  the file only writes to, as logs: the registry of \<^verbatim>\<open>context.registerReflection\<close> and
  the notifications of \<^verbatim>\<open>context.trigger\<close>.
\<close>

record State =
  heap :: heap
  registered :: "(ref \<times> Node) list"
  triggered :: "(ConverterEvent \<times> ref \<times> Node) list"

text \<open>
  Modelled from the spec: \<^verbatim>\<open>context.registerReflection\<close> enters the reflection and
  its node into the registry, \<^verbatim>\<open>context.trigger\<close> hands the event with the
  reflection and the node to the notification sink, and \<^verbatim>\<open>createReferenceType\<close>
  returns a reference to the symbol.
\<close>

definition registerReflection :: "ref \<Rightarrow> Node \<Rightarrow> State \<Rightarrow> State" where
  "registerReflection child node s = s\<lparr>registered := registered s @ [(child, node)]\<rparr>"

definition trigger :: "ConverterEvent \<Rightarrow> ref \<Rightarrow> Node \<Rightarrow> State \<Rightarrow> State" where
  "trigger ev child node s = s\<lparr>triggered := triggered s @ [(ev, child, node)]\<rparr>"

definition createReferenceType :: "Context \<Rightarrow> Symbol option \<Rightarrow> bool \<Rightarrow> ReferenceType" where
  "createReferenceType context sy includeParent = ReferenceType sy includeParent"

datatype Error = Error string | TypeError

subsection \<open>The constants of the file\<close>

text \<open>\<^verbatim>\<open>Array.prototype.indexOf\<close>: the first index of the element, or \<open>-1\<close>.\<close>

primrec indexOf :: "'a list \<Rightarrow> 'a \<Rightarrow> int" where
  "indexOf [] x = - 1"
| "indexOf (y # ys) x =
     (if y = x then 0 else (let i = indexOf ys x in if i = - 1 then - 1 else i + 1))"

definition nonStaticKinds :: "ReflectionKind list" where
  "nonStaticKinds = [ReflectionKind.Class, ReflectionKind.Interface, ReflectionKind.Module]"

definition considerInheritedExportKinds :: "ReflectionKind list" where
  "considerInheritedExportKinds =
     [ReflectionKind.Accessor, ReflectionKind.Constructor,
      ReflectionKind.ConstructorSignature, ReflectionKind.EnumMember,
      ReflectionKind.Event, ReflectionKind.GetSignature, ReflectionKind.IndexSignature,
      ReflectionKind.Method, ReflectionKind.Parameter, ReflectionKind.Property,
      ReflectionKind.SetSignature, ReflectionKind.TypeParameter]"

subsection \<open>\<^verbatim>\<open>setupDeclaration\<close>\<close>

text \<open>
  The function works on the reflection that \<^verbatim>\<open>createDeclaration\<close> has just made, which
  nothing else refers to yet, and returns it; the model takes and returns its value.
\<close>

definition setupDeclaration :: "Context \<Rightarrow> Reflection \<Rightarrow> Node \<Rightarrow> Reflection" where
  "setupDeclaration context reflection0 node =
     (let modifiers = getCombinedModifierFlags node;
          reflection1 = setFlag ReflectionFlag.External (Context.isExternal context) reflection0;
          reflection2 = setFlag ReflectionFlag.Protected
                          (ModifierFlags.Protected \<in> modifiers) reflection1;
          reflection3 = setFlag ReflectionFlag.Public
                          (ModifierFlags.Public \<in> modifiers) reflection2;
          reflection4 = setFlag ReflectionFlag.Optional (questionToken node) reflection3;
          reflection5 = setFlag ReflectionFlag.Abstract
                          (ModifierFlags.Abstract \<in> modifiers) reflection4;
          reflection6 = setFlag ReflectionFlag.Readonly
                          (ModifierFlags.Readonly \<in> modifiers) reflection5;
          reflection = setFlag ReflectionFlag.Ambient
                          (ModifierFlags.Ambient \<in> modifiers) reflection6
      in if isInherit context
            \<and> (Node.parent node = inheritParent context
               \<or> isConstructorProperty (flags reflection))
         then (if Reflection.inheritedFrom reflection = None
               then reflection
                 \<lparr>signatures :=
                    map (\<lambda>signature. signature
                          \<lparr>SignatureReflection.inheritedFrom :=
                             Some (createReferenceType context (symbol node) True)\<rparr>)
                      (getAllSignatures reflection),
                  inheritedFrom := Some (createReferenceType context (symbol node) True)\<rparr>
               else reflection)
         else reflection)"

subsection \<open>\<^verbatim>\<open>mergeDeclarations\<close>\<close>

text \<open>
  The function mutates the reflection it is given and returns it, or returns
  \<^verbatim>\<open>null\<close>. The model returns whether the reflection is returned, and the value of the
  reflection after the call.
\<close>

text \<open>
  Lines 193 to 200: \<^verbatim>\<open>weights\<close> is the local constant of the function, and
  \<open>reconcileKind\<close> is the assignment to \<^verbatim>\<open>reflection.kind\<close>.
\<close>

definition weights :: "ReflectionKind list" where
  "weights = [ReflectionKind.Module, ReflectionKind.Enum, ReflectionKind.Class]"

definition reconcileKind :: "Reflection \<Rightarrow> ReflectionKind \<Rightarrow> Reflection" where
  "reconcileKind reflection k =
     (if Reflection.kind reflection \<noteq> k
      then (let kindWeight = indexOf weights k;
                childKindWeight = indexOf weights (Reflection.kind reflection)
            in if kindWeight > childKindWeight then reflection\<lparr>kind := k\<rparr> else reflection)
      else reflection)"

definition mergeDeclarations ::
  "Context \<Rightarrow> Reflection \<Rightarrow> Node \<Rightarrow> ReflectionKind \<Rightarrow> bool \<times> Reflection" where
  "mergeDeclarations context reflection0 node k =
     (let reflection = reconcileKind reflection0 k
      in if isInherit context
            \<and> indexOf (inherited context) (Reflection.name reflection) \<noteq> - 1
            \<and> (Node.parent node = inheritParent context
               \<or> isConstructorProperty (flags reflection))
         then (False,
               if Reflection.overwrites reflection = None
               then reflection
                 \<lparr>signatures :=
                    map (\<lambda>signature. signature
                          \<lparr>SignatureReflection.overwrites :=
                             Some (createReferenceType context (symbol node) True)\<rparr>)
                      (getAllSignatures reflection),
                  overwrites := Some (createReferenceType context (symbol node) True)\<rparr>
               else reflection)
         else (True, reflection))"

subsection \<open>\<^verbatim>\<open>createDeclaration\<close>\<close>

text \<open>
  Lines 51 to 60, the name of the reflection: \<^verbatim>\<open>!name\<close> holds for an absent and for an
  empty name, and then the name of the local symbol or of the symbol is taken; with no
  name the function returns \<^verbatim>\<open>null\<close>.
\<close>

definition resolveName :: "string option \<Rightarrow> Node \<Rightarrow> string option" where
  "resolveName name0 node =
     (if name0 = None \<or> name0 = Some []
      then (case localSymbol node of
              Some ls \<Rightarrow> Some (Symbol.name ls)
            | None \<Rightarrow> (case symbol node of
                         Some sy \<Rightarrow> Some (Symbol.name sy)
                       | None \<Rightarrow> None))
      else name0)"

text \<open>
  Lines 64 to 88, the exported state. Line 84 reads the modifiers of
  \<^verbatim>\<open>node.parent.parent\<close>, which the compiler cannot do for an absent node: that
  is the \<open>TypeError\<close>.
\<close>

definition resolveExported ::
  "Context \<Rightarrow> Reflection \<Rightarrow> Node \<Rightarrow> ReflectionKind \<Rightarrow> Error + bool" where
  "resolveExported context container node k =
     (let modifiers = getCombinedModifierFlags node;
          isExported0 =
            (if kindOf container [ReflectionKind.Module, ReflectionKind.ExternalModule]
                \<or> ((indexOf considerInheritedExportKinds k = - 1
                     \<or> Node.kind node = SyntaxKind.VariableDeclaration
                     \<or> Node.kind node = SyntaxKind.FunctionDeclaration)
                    \<and> \<not> kindOf container
                          [ReflectionKind.ObjectLiteral, ReflectionKind.TypeLiteral])
             then False
             else isExported (flags container))
      in if k = ReflectionKind.ExternalModule \<or> isDeclaration context
            \<or> ModifierFlags.Ambient \<in> modifiers
            \<or> (instanceofProjectReflection container \<and> \<not> isDeclaration context
               \<and> mode (converter context) = SourceFileMode.File)
         then Inr True
         else (case Node.parent node of
                 Some p \<Rightarrow>
                   if Node.kind p = SyntaxKind.VariableDeclarationList
                   then (case Node.parent p of
                           None \<Rightarrow> Inl TypeError
                         | Some pp \<Rightarrow>
                             (let parentModifiers = getCombinedModifierFlags pp
                              in Inr (isExported0
                                      \<or> ModifierFlags.Export \<in> parentModifiers)))
                   else Inr (isExported0 \<or> ModifierFlags.Export \<in> modifiers)
               | None \<Rightarrow> Inr (isExported0 \<or> ModifierFlags.Export \<in> modifiers)))"

text \<open>
  Lines 100 to 112, the pair \<open>(isConstructorProperty, isStatic)\<close>.
\<close>

definition resolveStatic :: "Reflection \<Rightarrow> Node \<Rightarrow> ReflectionKind \<Rightarrow> bool \<times> bool" where
  "resolveStatic container node k =
     (let modifiers = getCombinedModifierFlags node
      in if indexOf nonStaticKinds k = - 1
         then (let isStatic0 = (ModifierFlags.Static \<in> modifiers)
               in if Reflection.kind container = ReflectionKind.Class
                  then (case Node.parent node of
                          Some p \<Rightarrow>
                            if Node.kind p = SyntaxKind.Constructor then (True, isStatic0)
                            else if Node.kind p \<noteq> SyntaxKind.ClassDeclaration
                            then (False, True)
                            else (False, isStatic0)
                        | None \<Rightarrow> (False, True))
                  else (False, isStatic0))
         else (False, False))"

text \<open>
  Lines 115 to 121. \<open>childrenOrEmpty\<close> is \<^verbatim>\<open>container.children || []\<close>. The scan
  of the children assigns every child that has the name and the static flag to
  \<^verbatim>\<open>child\<close>, so the last one stays.
\<close>

definition childrenOrEmpty :: "Reflection \<Rightarrow> ref list" where
  "childrenOrEmpty r = (case children r of None \<Rightarrow> [] | Some cs \<Rightarrow> cs)"

definition matchesChild :: "heap \<Rightarrow> string \<Rightarrow> bool \<Rightarrow> ref \<Rightarrow> bool" where
  "matchesChild h nm static n =
     (case deref h n of
        None \<Rightarrow> False
      | Some r \<Rightarrow> Reflection.name r = nm \<and> isStatic (flags r) = static)"

definition findChild :: "heap \<Rightarrow> ref list \<Rightarrow> string \<Rightarrow> bool \<Rightarrow> ref option" where
  "findChild h cs nm static =
     foldl (\<lambda>child n. if matchesChild h nm static n then Some n else child) None cs"

text \<open>
  Lines 123 to 135, the new reflection: it is the next object of the store, the
  container's \<^verbatim>\<open>children\<close> array receives the reference, and the registry the
  reflection and the node. \<^verbatim>\<open>setupDeclaration\<close> returns the reflection it was given,
  which is an object, so the test of line 132 holds.
\<close>

definition createChild ::
  "Context \<Rightarrow> Node \<Rightarrow> ReflectionKind \<Rightarrow> string \<Rightarrow> bool \<Rightarrow> bool \<Rightarrow> bool \<Rightarrow> bool
     \<Rightarrow> Reflection" where
  "createChild context node k nm static private constructorProperty exported =
     (let child0 = newDeclarationReflection (scope context) nm k;
          child1 = setFlag ReflectionFlag.Static static child0;
          child2 = setFlag ReflectionFlag.Private private child1;
          child3 = setFlag ReflectionFlag.ConstructorProperty constructorProperty child2;
          child4 = setFlag ReflectionFlag.Exported exported child3
      in setupDeclaration context child4 node)"

definition pushChild :: "ref \<Rightarrow> ref \<Rightarrow> heap \<Rightarrow> heap" where
  "pushChild container child h =
     h[container := (h ! container)
        \<lparr>children := Some (childrenOrEmpty (h ! container) @ [child])\<rparr>]"

definition createDeclaration ::
  "Context \<Rightarrow> Node \<Rightarrow> ReflectionKind \<Rightarrow> string option \<Rightarrow> State
     \<Rightarrow> Error + (ref option \<times> State)" where
  "createDeclaration context node k name0 s =
     (case deref (heap s) (scope context) of
        None \<Rightarrow> Inl (Error ''Expected container reflection.'')
      | Some container \<Rightarrow>
          if \<not> instanceofContainerReflection container
          then Inl (Error ''Expected container reflection.'')
          else (case resolveName name0 node of
            None \<Rightarrow> Inr (None, s)
          | Some nm \<Rightarrow>
              (let modifiers = getCombinedModifierFlags node
               in case resolveExported context container node k of
                 Inl e \<Rightarrow> Inl e
               | Inr exported \<Rightarrow>
                   if \<not> exported \<and> excludeNotExported (converter context)
                   then Inr (None, s)
                   else (let private = (ModifierFlags.Private \<in> modifiers)
                    in if isInherit context \<and> private then Inr (None, s)
                       else (let (constructorProperty, static) =
                                   resolveStatic container node k;
                                 cs = childrenOrEmpty container;
                                 s1 = s\<lparr>heap := (heap s)
                                        [scope context := container\<lparr>children := Some cs\<rparr>]\<rparr>
                        in case findChild (heap s1) cs nm static of
                          None \<Rightarrow>
                            (let child = length (heap s1);
                                 reflection = createChild context node k nm static private
                                                constructorProperty exported;
                                 s2 = s1\<lparr>heap := pushChild (scope context) child
                                                    (heap s1 @ [reflection])\<rparr>;
                                 s3 = registerReflection child node s2
                             in Inr (Some child,
                                     trigger EVENT_CREATE_DECLARATION child node s3))
                        | Some child \<Rightarrow>
                            (let (returned, reflection) =
                                   mergeDeclarations context (heap s1 ! child) node k;
                                 s2 = s1\<lparr>heap := (heap s1)[child := reflection]\<rparr>
                             in if returned
                                then Inr (Some child,
                                          trigger EVENT_CREATE_DECLARATION child node s2)
                                else Inr (None, s2)))))))"

section \<open>Properties of the builder\<close>

text \<open>
  The store after line 116, where \<^verbatim>\<open>container.children\<close> is an array.
\<close>

definition scanned :: "State \<Rightarrow> Context \<Rightarrow> Reflection \<Rightarrow> heap" where
  "scanned s context container =
     (heap s)[scope context := container\<lparr>children := Some (childrenOrEmpty container)\<rparr>]"

text \<open>
  The pair \<open>(name, isStatic)\<close> of the object a reference denotes, and the invariant of
  the store: in every object the children are objects of the store and no two of them
  have the same pair.
\<close>

definition childKey :: "heap \<Rightarrow> ref \<Rightarrow> (string \<times> bool) option" where
  "childKey h n = map_option (\<lambda>r. (Reflection.name r, isStatic (flags r))) (deref h n)"

definition uniqueChildren :: "heap \<Rightarrow> bool" where
  "uniqueChildren h =
     list_all (\<lambda>r. distinct (map (childKey h) (childrenOrEmpty r))
                   \<and> list_all (\<lambda>n. n < length h) (childrenOrEmpty r)) h"

text \<open>
  A sequence of invocations, each with its own context, node, kind and name. An
  invocation that throws leaves the store as it is: both throws of the function come
  before its first assignment.
\<close>

type_synonym Call = "Context \<times> Node \<times> ReflectionKind \<times> string option"

fun invoke :: "Call \<Rightarrow> State \<Rightarrow> State" where
  "invoke (context, node, k, name0) s =
     (case createDeclaration context node k name0 s of
        Inl e \<Rightarrow> s
      | Inr (res, s') \<Rightarrow> s')"

definition invokeAll :: "Call list \<Rightarrow> State \<Rightarrow> State" where
  "invokeAll calls s = fold invoke calls s"

text \<open>
  Two stores of the same size whose objects agree on name, static flag and children.
\<close>

definition sameKeys :: "heap \<Rightarrow> heap \<Rightarrow> bool" where
  "sameKeys h h' \<longleftrightarrow> length h' = length h \<and> (\<forall>n<length h. Reflection.name (h' ! n) = Reflection.name (h ! n)
       \<and> isStatic (flags (h' ! n)) = isStatic (flags (h ! n))
       \<and> childrenOrEmpty (h' ! n) = childrenOrEmpty (h ! n))"

text \<open>
  \<open>mergeFrame r r'\<close>: the reflection \<open>r'\<close> differs from \<open>r\<close> at most in its kind, in its
  \<^verbatim>\<open>overwrites\<close> and in the \<^verbatim>\<open>overwrites\<close> of its signatures.
\<close>

definition mergeFrame :: "Reflection \<Rightarrow> Reflection \<Rightarrow> bool" where
  "mergeFrame r r' \<longleftrightarrow>
     cls r' = cls r \<and> Reflection.parent r' = Reflection.parent r
     \<and> Reflection.name r' = Reflection.name r \<and> flags r' = flags r
     \<and> children r' = children r
     \<and> Reflection.inheritedFrom r' = Reflection.inheritedFrom r
     \<and> map (\<lambda>g. g\<lparr>SignatureReflection.overwrites := None\<rparr>) (signatures r')
         = map (\<lambda>g. g\<lparr>SignatureReflection.overwrites := None\<rparr>) (signatures r)"

text \<open>
  What every call leaves of an object that was in the store before it.
\<close>

definition untouched :: "Reflection \<Rightarrow> Reflection \<Rightarrow> bool" where
  "untouched r r' \<longleftrightarrow>
     flags r' = flags r \<and> Reflection.name r' = Reflection.name r
     \<and> Reflection.inheritedFrom r' = Reflection.inheritedFrom r
     \<and> map SignatureReflection.inheritedFrom (signatures r')
         = map SignatureReflection.inheritedFrom (signatures r)
     \<and> (Reflection.overwrites r \<noteq> None \<longrightarrow>
          Reflection.overwrites r' = Reflection.overwrites r \<and> signatures r' = signatures r)"

text \<open>
  \<open>reachesScan\<close>: the call gets to the scan of the children (line 115) with the
  container, the resolved name and the resolved exported state: the scope is a container,
  the node has a name, and neither exclusion applies.
\<close>

definition reachesScan ::
  "Context \<Rightarrow> Node \<Rightarrow> ReflectionKind \<Rightarrow> string option \<Rightarrow> State
     \<Rightarrow> Reflection \<Rightarrow> string \<Rightarrow> bool \<Rightarrow> bool" where
  "reachesScan context node k name0 s container nm exported \<longleftrightarrow>
     deref (heap s) (scope context) = Some container
     \<and> instanceofContainerReflection container
     \<and> resolveName name0 node = Some nm
     \<and> resolveExported context container node k = Inr exported
     \<and> \<not> (\<not> exported \<and> excludeNotExported (converter context))
     \<and> \<not> (isInherit context \<and> ModifierFlags.Private \<in> getCombinedModifierFlags node)"

subsection \<open>Concrete inputs\<close>

text \<open>
  The inputs at which the theorems below are evaluated: a class \<^verbatim>\<open>Widget\<close> with a
  private static method \<^verbatim>\<open>reset\<close> and a constructor parameter property \<^verbatim>\<open>x\<close>, a
  base class \<^verbatim>\<open>Base\<close> with a constructor parameter property \<^verbatim>\<open>x\<close>, a method
  \<^verbatim>\<open>render\<close> and a private method \<^verbatim>\<open>secret\<close>, an ambient function, an interface
  and a namespace \<^verbatim>\<open>Shape\<close>; the contexts of a plain walk, of a walk that excludes what
  is not exported, and of the inheritance walk from \<^verbatim>\<open>Base\<close> into a class that declares
  \<^verbatim>\<open>x\<close> and \<^verbatim>\<open>render\<close> itself; and the stores before and after the calls.
\<close>

definition classNode :: Node where
  "classNode = Node 1 SyntaxKind.ClassDeclaration {ModifierFlags.Export} None
                 (Some (Symbol 1 ''Widget'')) False None"

definition methodNode :: Node where
  "methodNode = Node 2 (OtherSyntaxKind 0) {ModifierFlags.Private, ModifierFlags.Static} None
                  (Some (Symbol 2 ''reset'')) False (Some classNode)"

definition plainContext :: Context where
  "plainContext = \<lparr>scope = 0, isDeclaration = False, isExternal = False, isInherit = False,
     inheritParent = None, inherited = [],
     converter = \<lparr>mode = SourceFileMode.Modules, excludeNotExported = False\<rparr>\<rparr>"

definition classReflection :: Reflection where
  "classReflection = \<lparr>cls = DeclarationReflectionClass, parent = None, name = ''Widget'',
     kind = ReflectionKind.Class, flags = noFlags, children = None, signatures = [],
     inheritedFrom = None, overwrites = None\<rparr>"

definition classState :: State where
  "classState = \<lparr>heap = [classReflection], registered = [], triggered = []\<rparr>"

definition excludingContext :: Context where
  "excludingContext = plainContext
     \<lparr>converter := \<lparr>mode = SourceFileMode.Modules, excludeNotExported = True\<rparr>\<rparr>"

definition resetReflection :: Reflection where
  "resetReflection = \<lparr>cls = DeclarationReflectionClass, parent = Some 0, name = ''reset'',
     kind = ReflectionKind.Method, flags = noFlags\<lparr>isPrivate := True, isStatic := True\<rparr>,
     children = None, signatures = [], inheritedFrom = None, overwrites = None\<rparr>"

definition memberState :: State where
  "memberState = \<lparr>heap = [classReflection\<lparr>children := Some [1]\<rparr>, resetReflection],
     registered = [(1, methodNode)],
     triggered = [(EVENT_CREATE_DECLARATION, 1, methodNode)]\<rparr>"

definition constructorNode :: Node where
  "constructorNode = Node 3 SyntaxKind.Constructor {} None (Some (Symbol 3 ''__constructor''))
                       False (Some classNode)"

definition parameterNode :: Node where
  "parameterNode = Node 4 (OtherSyntaxKind 1) {ModifierFlags.Public} None
                     (Some (Symbol 4 ''x'')) False (Some constructorNode)"

definition baseClassNode :: Node where
  "baseClassNode = Node 5 SyntaxKind.ClassDeclaration {} None (Some (Symbol 5 ''Base''))
                     False None"

definition baseConstructorNode :: Node where
  "baseConstructorNode = Node 6 SyntaxKind.Constructor {} None
                           (Some (Symbol 6 ''__constructor'')) False (Some baseClassNode)"

definition baseParameterNode :: Node where
  "baseParameterNode = Node 7 (OtherSyntaxKind 1) {ModifierFlags.Public} None
                         (Some (Symbol 7 ''x'')) False (Some baseConstructorNode)"

definition baseMethodNode :: Node where
  "baseMethodNode = Node 8 (OtherSyntaxKind 0) {} None (Some (Symbol 8 ''render''))
                      False (Some baseClassNode)"

definition privateMethodNode :: Node where
  "privateMethodNode = Node 9 (OtherSyntaxKind 0) {ModifierFlags.Private} None
                         (Some (Symbol 9 ''secret'')) False (Some baseClassNode)"

definition ambientNode :: Node where
  "ambientNode = Node 10 SyntaxKind.FunctionDeclaration {ModifierFlags.Ambient} None
                   (Some (Symbol 10 ''helper'')) False None"

definition inheritContext :: Context where
  "inheritContext = plainContext
     \<lparr>isInherit := True, inheritParent := Some baseClassNode, inherited := [''x'', ''render'']\<rparr>"

definition xReflection :: Reflection where
  "xReflection = \<lparr>cls = DeclarationReflectionClass, parent = Some 0, name = ''x'',
     kind = ReflectionKind.Property, flags = noFlags, children = None, signatures = [],
     inheritedFrom = None, overwrites = None\<rparr>"

definition renderSignature :: SignatureReflection where
  "renderSignature = \<lparr>SignatureReflection.name = ''render'',
     inheritedFrom = None, overwrites = None\<rparr>"

definition renderReflection :: Reflection where
  "renderReflection = \<lparr>cls = DeclarationReflectionClass, parent = Some 0, name = ''render'',
     kind = ReflectionKind.Method, flags = noFlags, children = None,
     signatures = [renderSignature], inheritedFrom = None, overwrites = None\<rparr>"

definition otherBaseReference :: ReferenceType where
  "otherBaseReference = ReferenceType (Some (Symbol 11 ''render'')) True"

definition renderOverriding :: Reflection where
  "renderOverriding = renderReflection
     \<lparr>signatures := [renderSignature\<lparr>SignatureReflection.overwrites := Some otherBaseReference\<rparr>],
      overwrites := Some otherBaseReference\<rparr>"

definition derivedState :: State where
  "derivedState = \<lparr>heap = [classReflection\<lparr>children := Some [1, 2]\<rparr>, xReflection,
                            renderReflection],
     registered = [], triggered = []\<rparr>"

definition moduleReflection :: Reflection where
  "moduleReflection = \<lparr>cls = DeclarationReflectionClass, parent = None, name = ''shapes'',
     kind = ReflectionKind.Module, flags = noFlags, children = None, signatures = [],
     inheritedFrom = None, overwrites = None\<rparr>"

definition interfaceReflection :: Reflection where
  "interfaceReflection = \<lparr>cls = DeclarationReflectionClass, parent = None, name = ''Shape'',
     kind = ReflectionKind.Interface, flags = noFlags, children = None, signatures = [],
     inheritedFrom = None, overwrites = None\<rparr>"

definition namespaceNode :: Node where
  "namespaceNode = Node 12 (OtherSyntaxKind 2) {} None (Some (Symbol 12 ''Shape'')) False None"

definition moduleState :: State where
  "moduleState = \<lparr>heap = [moduleReflection], registered = [], triggered = []\<rparr>"

definition helperState :: State where
  "helperState = \<lparr>heap = [moduleReflection\<lparr>children := Some [1]\<rparr>,
       \<lparr>cls = DeclarationReflectionClass, parent = Some 0, name = ''helper'',
        kind = OtherKind 0, flags = noFlags\<lparr>isExported := True, isAmbient := True\<rparr>,
        children = None, signatures = [], inheritedFrom = None, overwrites = None\<rparr>],
     registered = [(1, ambientNode)],
     triggered = [(EVENT_CREATE_DECLARATION, 1, ambientNode)]\<rparr>"

definition propertyState :: State where
  "propertyState = \<lparr>heap = [classReflection\<lparr>children := Some [1]\<rparr>,
       xReflection\<lparr>flags := noFlags\<lparr>isPublic := True, isConstructorProperty := True\<rparr>\<rparr>],
     registered = [(1, parameterNode)],
     triggered = [(EVENT_CREATE_DECLARATION, 1, parameterNode)]\<rparr>"

definition drawInherited :: Reflection where
  "drawInherited = \<lparr>cls = DeclarationReflectionClass, parent = Some 0, name = ''draw'',
     kind = ReflectionKind.Method, flags = noFlags, children = None,
     signatures = [\<lparr>SignatureReflection.name = ''draw'',
                    inheritedFrom = Some otherBaseReference, overwrites = None\<rparr>],
     inheritedFrom = Some otherBaseReference, overwrites = None\<rparr>"

definition settledState :: State where
  "settledState = \<lparr>heap = [classReflection\<lparr>children := Some [1, 2]\<rparr>, renderOverriding,
                            drawInherited],
     registered = [], triggered = []\<rparr>"

definition baseReference :: ReferenceType where
  "baseReference = ReferenceType (Some (Symbol 8 ''render'')) True"

definition overriddenState :: State where
  "overriddenState = \<lparr>heap = [classReflection\<lparr>children := Some [1, 2]\<rparr>, xReflection,
       renderReflection
         \<lparr>signatures := [renderSignature\<lparr>SignatureReflection.overwrites := Some baseReference\<rparr>],
          overwrites := Some baseReference\<rparr>],
     registered = [], triggered = []\<rparr>"

definition mergedState :: State where
  "mergedState = memberState
     \<lparr>triggered := [(EVENT_CREATE_DECLARATION, 1, methodNode),
                    (EVENT_CREATE_DECLARATION, 1, methodNode)]\<rparr>"

definition remergedState :: State where
  "remergedState = derivedState
     \<lparr>triggered := [(EVENT_CREATE_DECLARATION, 1, baseParameterNode)]\<rparr>"

section \<open>Lemmas\<close>

subsection \<open>Indices and kinds\<close>

lemma indexOf_weights_cases:
  "indexOf weights k = (if k = ReflectionKind.Module then 0 else if k = ReflectionKind.Enum then 1
      else if k = ReflectionKind.Class then 2 else - 1)"
  by (simp add: weights_def)

lemma indexOf_ge: "- 1 \<le> indexOf xs x"
  by (induction xs) (auto simp: Let_def)

lemma indexOf_absent: "indexOf xs x = - 1 \<longleftrightarrow> x \<notin> set xs"
proof (induction xs)
  case Nil show ?case by simp
next
  case (Cons y ys)
  have "- 1 \<le> indexOf ys x" by (rule indexOf_ge)
  with Cons show ?case by (auto simp: Let_def)
qed

lemma kind_mergeDeclarations:
  "Reflection.kind (snd (mergeDeclarations context r node k)) = Reflection.kind (reconcileKind r k)"
  by (simp add: mergeDeclarations_def Let_def)

lemma kind_reconcileKind:
  "Reflection.kind (reconcileKind r k) =
     (if indexOf weights k > indexOf weights (Reflection.kind r) then k else Reflection.kind r)"
  by (auto simp: reconcileKind_def Let_def)

subsection \<open>The paths through \<^verbatim>\<open>createDeclaration\<close>\<close>

lemma createDeclaration_skip_name:
  assumes "deref (heap s) (scope context) = Some container"
    and "instanceofContainerReflection container"
    and "resolveName name0 node = None"
  shows "createDeclaration context node k name0 s = Inr (None, s)"
  using assms by (simp add: createDeclaration_def)

lemma createDeclaration_skip_export:
  assumes "deref (heap s) (scope context) = Some container"
    and "instanceofContainerReflection container"
    and "resolveName name0 node = Some nm"
    and "resolveExported context container node k = Inr False"
    and "excludeNotExported (converter context)"
  shows "createDeclaration context node k name0 s = Inr (None, s)"
  using assms by (simp add: createDeclaration_def Let_def)

lemma createDeclaration_skip_private:
  assumes "deref (heap s) (scope context) = Some container"
    and "instanceofContainerReflection container"
    and "resolveName name0 node = Some nm"
    and "resolveExported context container node k = Inr exported"
    and "isInherit context"
    and "ModifierFlags.Private \<in> getCombinedModifierFlags node"
  shows "createDeclaration context node k name0 s = Inr (None, s)"
  using assms by (simp add: createDeclaration_def Let_def)

lemma createDeclaration_create:
  assumes "deref (heap s) (scope context) = Some container"
    and "instanceofContainerReflection container"
    and "resolveName name0 node = Some nm"
    and "resolveExported context container node k = Inr exported"
    and "exported \<or> \<not> excludeNotExported (converter context)"
    and "\<not> (isInherit context \<and> ModifierFlags.Private \<in> getCombinedModifierFlags node)"
    and "resolveStatic container node k = (cp, static)"
    and "findChild (scanned s context container) (childrenOrEmpty container) nm static = None"
  shows "createDeclaration context node k name0 s =
           Inr (Some (length (heap s)),
                trigger EVENT_CREATE_DECLARATION (length (heap s)) node
                  (registerReflection (length (heap s)) node
                     (s\<lparr>heap := pushChild (scope context) (length (heap s))
                          (scanned s context container
                            @ [createChild context node k nm static
                                (ModifierFlags.Private \<in> getCombinedModifierFlags node)
                                cp exported])\<rparr>)))"
  using assms by (auto simp add: createDeclaration_def Let_def scanned_def)

lemma createDeclaration_merge:
  assumes "deref (heap s) (scope context) = Some container"
    and "instanceofContainerReflection container"
    and "resolveName name0 node = Some nm"
    and "resolveExported context container node k = Inr exported"
    and "exported \<or> \<not> excludeNotExported (converter context)"
    and "\<not> (isInherit context \<and> ModifierFlags.Private \<in> getCombinedModifierFlags node)"
    and "resolveStatic container node k = (cp, static)"
    and "findChild (scanned s context container) (childrenOrEmpty container) nm static = Some child"
    and "mergeDeclarations context (scanned s context container ! child) node k = (returned, r')"
  shows "createDeclaration context node k name0 s =
           (if returned
            then Inr (Some child, trigger EVENT_CREATE_DECLARATION child node
                        (s\<lparr>heap := (scanned s context container)[child := r']\<rparr>))
            else Inr (None, s\<lparr>heap := (scanned s context container)[child := r']\<rparr>))"
  using assms by (auto simp add: createDeclaration_def Let_def scanned_def)

lemma createDeclaration_Inr_cases:
  assumes "createDeclaration context node k name0 s = Inr (res, s')"
  obtains (skip) "res = None" "s' = s"
  | (create) container nm exported cp static where
      "deref (heap s) (scope context) = Some container"
      "instanceofContainerReflection container"
      "resolveName name0 node = Some nm"
      "resolveExported context container node k = Inr exported"
      "exported \<or> \<not> excludeNotExported (converter context)"
      "\<not> (isInherit context \<and> ModifierFlags.Private \<in> getCombinedModifierFlags node)"
      "resolveStatic container node k = (cp, static)"
      "findChild (scanned s context container) (childrenOrEmpty container) nm static = None"
      "res = Some (length (heap s))"
      "s' = trigger EVENT_CREATE_DECLARATION (length (heap s)) node
                  (registerReflection (length (heap s)) node
                     (s\<lparr>heap := pushChild (scope context) (length (heap s))
                          (scanned s context container
                            @ [createChild context node k nm static
                                (ModifierFlags.Private \<in> getCombinedModifierFlags node)
                                cp exported])\<rparr>))"
  | (merge) container nm exported cp static child returned r' where
      "deref (heap s) (scope context) = Some container"
      "instanceofContainerReflection container"
      "resolveName name0 node = Some nm"
      "resolveExported context container node k = Inr exported"
      "exported \<or> \<not> excludeNotExported (converter context)"
      "\<not> (isInherit context \<and> ModifierFlags.Private \<in> getCombinedModifierFlags node)"
      "resolveStatic container node k = (cp, static)"
      "findChild (scanned s context container) (childrenOrEmpty container) nm static = Some child"
      "mergeDeclarations context (scanned s context container ! child) node k = (returned, r')"
      "res = (if returned then Some child else None)"
      "s' = (if returned
             then trigger EVENT_CREATE_DECLARATION child node
                        (s\<lparr>heap := (scanned s context container)[child := r']\<rparr>)
             else s\<lparr>heap := (scanned s context container)[child := r']\<rparr>)"
proof (cases "deref (heap s) (scope context)")
  case None
  with assms show ?thesis by (simp add: createDeclaration_def)
next
  case (Some container)
  note c = this
  show ?thesis
  proof (cases "instanceofContainerReflection container")
    case False
    with assms c show ?thesis by (simp add: createDeclaration_def)
  next
    case True
    note ic = this
    show ?thesis
    proof (cases "resolveName name0 node")
      case None
      from createDeclaration_skip_name[OF c ic None] assms
      show ?thesis using skip by simp
    next
      case (Some nm)
      note n = this
      show ?thesis
      proof (cases "resolveExported context container node k")
        case (Inl e)
        with assms c ic n show ?thesis by (simp add: createDeclaration_def Let_def)
      next
        case (Inr exported)
        note e = this
        show ?thesis
        proof (cases "\<not> exported \<and> excludeNotExported (converter context)")
          case True
          with createDeclaration_skip_export[OF c ic n] e assms
          show ?thesis using skip by simp
        next
          case False
          then have ex: "exported \<or> \<not> excludeNotExported (converter context)" by simp
          show ?thesis
          proof (cases "isInherit context \<and> ModifierFlags.Private \<in> getCombinedModifierFlags node")
            case True
            with createDeclaration_skip_private[OF c ic n e] assms
            show ?thesis using skip by simp
          next
            case False
            note p = this
            obtain cp static where st: "resolveStatic container node k = (cp, static)"
              by (cases "resolveStatic container node k")
            show ?thesis
            proof (cases "findChild (scanned s context container) (childrenOrEmpty container) nm static")
              case None
              from createDeclaration_create[OF c ic n e ex p st None] assms
              show ?thesis using create[OF c ic n e ex p st None] by simp
            next
              case (Some child)
              obtain returned r' where
                m: "mergeDeclarations context (scanned s context container ! child) node k = (returned, r')"
                by (cases "mergeDeclarations context (scanned s context container ! child) node k")
              from createDeclaration_merge[OF c ic n e ex p st Some m] assms
              show ?thesis using merge[OF c ic n e ex p st Some m]
                by (simp split: if_splits)
            qed
          qed
        qed
      qed
    qed
  qed
qed

subsection \<open>The scan and the invariant\<close>

lemma findChild_snoc:
  "findChild h (cs @ [n]) nm static =
     (if matchesChild h nm static n then Some n else findChild h cs nm static)"
  by (simp add: findChild_def)

lemma findChild_None: "findChild h cs nm static = None \<longleftrightarrow> (\<forall>n\<in>set cs. \<not> matchesChild h nm static n)"
  by (induction cs rule: rev_induct) (auto simp: findChild_snoc, simp add: findChild_def)

lemma findChild_Some:
  "findChild h cs nm static = Some n \<Longrightarrow> n \<in> set cs \<and> matchesChild h nm static n"
  by (induction cs rule: rev_induct) (auto simp: findChild_snoc findChild_def split: if_splits)

lemma matchesChild_key: "matchesChild h nm static n \<longleftrightarrow> childKey h n = Some (nm, static)"
  by (auto simp: matchesChild_def childKey_def split: option.splits)

lemma matchesChild_deref:
  "matchesChild h nm static n \<Longrightarrow> n < length h \<and> Reflection.name (h ! n) = nm \<and> isStatic (flags (h ! n)) = static"
  by (auto simp: matchesChild_def deref_def split: option.splits if_splits)

lemma sameKeys_childKey: "sameKeys h h' \<Longrightarrow> childKey h' n = childKey h n"
  by (auto simp: sameKeys_def childKey_def deref_def)

lemma uniqueChildren_iff:
  "uniqueChildren h \<longleftrightarrow> (\<forall>c<length h. distinct (map (childKey h) (childrenOrEmpty (h ! c)))
       \<and> (\<forall>n\<in>set (childrenOrEmpty (h ! c)). n < length h))"
  by (simp add: uniqueChildren_def list_all_length) (metis nth_mem in_set_conv_nth)

lemma sameKeys_unique: "sameKeys h h' \<Longrightarrow> uniqueChildren h \<Longrightarrow> uniqueChildren h'"
proof -
  assume a: "sameKeys h h'" and u: "uniqueChildren h"
  have k: "childKey h' = childKey h" using sameKeys_childKey[OF a] by auto
  show ?thesis using a u unfolding uniqueChildren_iff k by (simp add: sameKeys_def)
qed

lemma childrenOrEmpty_Some [simp]: "childrenOrEmpty (r\<lparr>children := Some cs\<rparr>) = cs"
  by (simp add: childrenOrEmpty_def)

lemma deref_Some: "deref h r = Some x \<longleftrightarrow> r < length h \<and> x = h ! r"
  by (auto simp: deref_def)

lemma scanned_nth:
  "deref (heap s) (scope context) = Some container \<Longrightarrow> n < length (heap s) \<Longrightarrow>
   scanned s context container ! n =
     (if n = scope context then container\<lparr>children := Some (childrenOrEmpty container)\<rparr>
      else heap s ! n)"
  by (auto simp: scanned_def deref_Some)

lemma length_scanned [simp]: "length (scanned s context container) = length (heap s)"
  by (simp add: scanned_def)

lemma sameKeys_scanned:
  "deref (heap s) (scope context) = Some container \<Longrightarrow> sameKeys (heap s) (scanned s context container)"
  by (auto simp: sameKeys_def scanned_nth deref_Some)

subsection \<open>What the three functions leave unchanged\<close>

lemma reconcileKind_frame:
  "Reflection.name (reconcileKind r k) = Reflection.name r"
  "flags (reconcileKind r k) = flags r"
  "children (reconcileKind r k) = children r"
  "cls (reconcileKind r k) = cls r"
  "Reflection.parent (reconcileKind r k) = Reflection.parent r"
  "signatures (reconcileKind r k) = signatures r"
  "Reflection.inheritedFrom (reconcileKind r k) = Reflection.inheritedFrom r"
  "Reflection.overwrites (reconcileKind r k) = Reflection.overwrites r"
  by (simp_all add: reconcileKind_def Let_def)

lemma mergeDeclarations_frame:
  "Reflection.name (snd (mergeDeclarations context r node k)) = Reflection.name r"
  "flags (snd (mergeDeclarations context r node k)) = flags r"
  "children (snd (mergeDeclarations context r node k)) = children r"
  "cls (snd (mergeDeclarations context r node k)) = cls r"
  "Reflection.parent (snd (mergeDeclarations context r node k)) = Reflection.parent r"
  "Reflection.inheritedFrom (snd (mergeDeclarations context r node k)) = Reflection.inheritedFrom r"
  by (simp_all add: mergeDeclarations_def Let_def reconcileKind_frame)

lemma sameKeys_merge:
  assumes "child < length h"
  shows "sameKeys h (h[child := snd (mergeDeclarations context (h ! child) node k)])"
  using assms by (auto simp: sameKeys_def nth_list_update mergeDeclarations_frame childrenOrEmpty_def)

lemma setFlag_frame:
  "Reflection.name (setFlag f v r) = Reflection.name r"
  "children (setFlag f v r) = children r"
  "cls (setFlag f v r) = cls r"
  "Reflection.kind (setFlag f v r) = Reflection.kind r"
  "Reflection.parent (setFlag f v r) = Reflection.parent r"
  "signatures (setFlag f v r) = signatures r"
  "Reflection.inheritedFrom (setFlag f v r) = Reflection.inheritedFrom r"
  "Reflection.overwrites (setFlag f v r) = Reflection.overwrites r"
  by (cases f, simp_all)+

lemma setupDeclaration_frame:
  "Reflection.name (setupDeclaration context r node) = Reflection.name r"
  "children (setupDeclaration context r node) = children r"
  "cls (setupDeclaration context r node) = cls r"
  "Reflection.kind (setupDeclaration context r node) = Reflection.kind r"
  "Reflection.parent (setupDeclaration context r node) = Reflection.parent r"
  "Reflection.overwrites (setupDeclaration context r node) = Reflection.overwrites r"
  by (simp_all add: setupDeclaration_def Let_def setFlag_frame)

lemma setupDeclaration_flags:
  "flags (setupDeclaration context r node) =
     (flags r)\<lparr>ReflectionFlags.isExternal := Context.isExternal context,
       isProtected := ModifierFlags.Protected \<in> getCombinedModifierFlags node,
       isPublic := ModifierFlags.Public \<in> getCombinedModifierFlags node,
       isOptional := questionToken node,
       isAbstract := ModifierFlags.Abstract \<in> getCombinedModifierFlags node,
       isReadonly := ModifierFlags.Readonly \<in> getCombinedModifierFlags node,
       isAmbient := ModifierFlags.Ambient \<in> getCombinedModifierFlags node\<rparr>"
  by (simp add: setupDeclaration_def Let_def)

lemma createChild_fields:
  "Reflection.name (createChild context node k nm static private cp exported) = nm"
  "children (createChild context node k nm static private cp exported) = None"
  "Reflection.kind (createChild context node k nm static private cp exported) = k"
  "cls (createChild context node k nm static private cp exported) = DeclarationReflectionClass"
  "Reflection.parent (createChild context node k nm static private cp exported) = Some (scope context)"
  "Reflection.overwrites (createChild context node k nm static private cp exported) = None"
  by (simp_all add: createChild_def Let_def setupDeclaration_frame setFlag_frame newDeclarationReflection_def)

lemma createChild_flags:
  "flags (createChild context node k nm static private cp exported) =
     \<lparr>isPrivate = private,
      isProtected = ModifierFlags.Protected \<in> getCombinedModifierFlags node,
      isPublic = ModifierFlags.Public \<in> getCombinedModifierFlags node,
      isStatic = static, isExported = exported, isExternal = Context.isExternal context,
      isOptional = questionToken node, isConstructorProperty = cp,
      isAbstract = ModifierFlags.Abstract \<in> getCombinedModifierFlags node,
      isReadonly = ModifierFlags.Readonly \<in> getCombinedModifierFlags node,
      isAmbient = ModifierFlags.Ambient \<in> getCombinedModifierFlags node\<rparr>"
  by (simp add: createChild_def Let_def setupDeclaration_flags newDeclarationReflection_def noFlags_def)

subsection \<open>The invariant is preserved\<close>

lemma pushChild_nth:
  assumes "c < length h" and "n \<le> length h"
  shows "pushChild c (length h) (h @ [x]) ! n =
           (if n = c then (h ! c)\<lparr>children := Some (childrenOrEmpty (h ! c) @ [length h])\<rparr>
            else if n = length h then x else h ! n)"
  using assms by (auto simp: pushChild_def nth_append nth_list_update)

lemma length_pushChild [simp]: "length (pushChild c n h) = length h"
  by (simp add: pushChild_def)

lemma unique_create:
  assumes u: "uniqueChildren h"
    and c: "c < length h"
    and nf: "\<forall>n\<in>set (childrenOrEmpty (h ! c)). childKey h n \<noteq> Some (Reflection.name x, isStatic (flags x))"
    and x: "children x = None"
  shows "uniqueChildren (pushChild c (length h) (h @ [x]))"
proof -
  let ?h' = "pushChild c (length h) (h @ [x])"
  have len: "length ?h' = Suc (length h)" by simp
  have key_old: "childKey ?h' n = childKey h n" if "n < length h" for n
    using that c by (auto simp: childKey_def deref_def pushChild_nth)
  have key_new: "childKey ?h' (length h) = Some (Reflection.name x, isStatic (flags x))"
    using c by (auto simp: childKey_def deref_def pushChild_nth)
  have inr: "\<forall>n\<in>set (childrenOrEmpty (h ! d)). n < length h" if "d < length h" for d
    using u that by (simp add: uniqueChildren_iff)
  have dist: "distinct (map (childKey h) (childrenOrEmpty (h ! d)))" if "d < length h" for d
    using u that by (simp add: uniqueChildren_iff)
  have map_old: "map (childKey ?h') (childrenOrEmpty (h ! d)) = map (childKey h) (childrenOrEmpty (h ! d))"
    if "d < length h" for d
    using inr[OF that] key_old by simp
  show ?thesis
    unfolding uniqueChildren_iff
  proof (intro allI impI)
    fix d assume "d < length ?h'"
    then have d: "d < Suc (length h)" by simp
    consider (scope) "d = c" | (new) "d = length h" | (other) "d \<noteq> c" "d < length h"
      using d by linarith
    then show "distinct (map (childKey ?h') (childrenOrEmpty (?h' ! d)))
               \<and> (\<forall>n\<in>set (childrenOrEmpty (?h' ! d)). n < length ?h')"
    proof cases
      case scope
      have ch: "childrenOrEmpty (?h' ! d) = childrenOrEmpty (h ! c) @ [length h]"
        using scope c by (simp add: pushChild_nth)
      have notin: "Some (Reflection.name x, isStatic (flags x))
                     \<notin> set (map (childKey h) (childrenOrEmpty (h ! c)))"
        using nf by auto
      have "map (childKey ?h') (childrenOrEmpty (?h' ! d)) =
              map (childKey h) (childrenOrEmpty (h ! c))
                @ [Some (Reflection.name x, isStatic (flags x))]"
        by (simp only: ch map_append map_old[OF c] key_new list.map)
      then have "distinct (map (childKey ?h') (childrenOrEmpty (?h' ! d)))"
        using dist[OF c] notin by simp
      moreover have "\<forall>n\<in>set (childrenOrEmpty (?h' ! d)). n < length ?h'"
        using inr[OF c] by (simp only: ch len) (auto simp: less_Suc_eq)
      ultimately show ?thesis by blast
    next
      case new
      have "?h' ! d = x" using new c by (simp add: pushChild_nth)
      then show ?thesis using x by (simp add: childrenOrEmpty_def)
    next
      case other
      have eq: "?h' ! d = h ! d" using other c by (simp add: pushChild_nth)
      have "distinct (map (childKey ?h') (childrenOrEmpty (?h' ! d)))"
        using dist[OF other(2)] by (simp only: eq map_old[OF other(2)])
      moreover have "\<forall>n\<in>set (childrenOrEmpty (?h' ! d)). n < length ?h'"
        using inr[OF other(2)] by (simp only: eq len) (auto simp: less_Suc_eq)
      ultimately show ?thesis by blast
    qed
  qed
qed

lemma createDeclaration_unique:
  assumes r: "createDeclaration context node k name0 s = Inr (res, s')"
    and u: "uniqueChildren (heap s)"
  shows "uniqueChildren (heap s')"
  using r
proof (cases rule: createDeclaration_Inr_cases)
  case skip
  with u show ?thesis by simp
next
  case (create container nm exported cp static)
  let ?h1 = "scanned s context container"
  let ?x = "createChild context node k nm static
              (ModifierFlags.Private \<in> getCombinedModifierFlags node) cp exported"
  have c: "scope context < length ?h1" using create(1) by (simp add: deref_Some)
  have u1: "uniqueChildren ?h1"
    using sameKeys_unique[OF sameKeys_scanned[OF create(1)] u] .
  have nf: "\<forall>n\<in>set (childrenOrEmpty (?h1 ! scope context)).
              childKey ?h1 n \<noteq> Some (Reflection.name ?x, isStatic (flags ?x))"
    using create(8) create(1) c
    by (simp add: findChild_None matchesChild_key createChild_fields createChild_flags scanned_nth)
  have "uniqueChildren (pushChild (scope context) (length ?h1) (?h1 @ [?x]))"
    by (rule unique_create[OF u1 c nf]) (simp add: createChild_fields)
  then show ?thesis using create(10) by (simp add: trigger_def registerReflection_def)
next
  case (merge container nm exported cp static child returned r')
  let ?h1 = "scanned s context container"
  have u1: "uniqueChildren ?h1"
    using sameKeys_unique[OF sameKeys_scanned[OF merge(1)] u] .
  have ch: "child < length ?h1"
    using findChild_Some[OF merge(8)] matchesChild_deref by blast
  have "r' = snd (mergeDeclarations context (?h1 ! child) node k)" using merge(9) by simp
  then have "sameKeys ?h1 (?h1[child := r'])" using sameKeys_merge[OF ch] by simp
  then have "uniqueChildren (?h1[child := r'])" using u1 sameKeys_unique by blast
  then show ?thesis using merge(11) by (simp add: trigger_def split: if_splits)
qed

lemma invoke_unique: "uniqueChildren (heap s) \<Longrightarrow> uniqueChildren (heap (invoke call s))"
proof -
  assume u: "uniqueChildren (heap s)"
  obtain ctx node k name0 where call: "call = (ctx, node, k, name0)"
    by (cases call) auto
  show ?thesis
  proof (cases "createDeclaration ctx node k name0 s")
    case (Inl e)
    with u call show ?thesis by simp
  next
    case (Inr p)
    obtain res s' where p: "p = (res, s')" by (cases p)
    with Inr createDeclaration_unique[OF _ u] call show ?thesis by simp
  qed
qed

lemma invokeAll_unique: "uniqueChildren (heap s) \<Longrightarrow> uniqueChildren (heap (invokeAll calls s))"
  unfolding invokeAll_def
  by (induction calls arbitrary: s) (simp_all add: invoke_unique)

subsection \<open>Evaluation\<close>

lemmas model_defs = createDeclaration_def deref_def resolveName_def resolveExported_def
  resolveStatic_def findChild_def matchesChild_def childrenOrEmpty_def createChild_def
  pushChild_def setupDeclaration_def mergeDeclarations_def reconcileKind_def
  newDeclarationReflection_def noFlags_def getCombinedModifierFlags_def kindOf_def
  instanceofContainerReflection_def instanceofProjectReflection_def registerReflection_def
  trigger_def createReferenceType_def getAllSignatures_def nonStaticKinds_def
  considerInheritedExportKinds_def weights_def

lemmas example_defs =
  classNode_def methodNode_def plainContext_def classReflection_def classState_def
  excludingContext_def resetReflection_def memberState_def constructorNode_def
  parameterNode_def baseClassNode_def baseConstructorNode_def baseParameterNode_def
  baseMethodNode_def privateMethodNode_def ambientNode_def inheritContext_def
  xReflection_def renderSignature_def renderReflection_def otherBaseReference_def
  renderOverriding_def derivedState_def moduleReflection_def interfaceReflection_def
  namespaceNode_def moduleState_def helperState_def propertyState_def drawInherited_def
  settledState_def baseReference_def overriddenState_def mergedState_def
  remergedState_def

subsection \<open>Flag resolution\<close>

lemma resolveExported_unexported_member:
  assumes "\<not> isExported (flags container)"
    and "\<not> instanceofProjectReflection container"
    and "\<not> isDeclaration context"
    and "getCombinedModifierFlags node = {ModifierFlags.Private, ModifierFlags.Static}"
    and "Node.parent node = Some p" and "Node.kind p = SyntaxKind.ClassDeclaration"
  shows "resolveExported context container node ReflectionKind.Method = Inr False"
  using assms by (simp add: resolveExported_def Let_def)

lemma resolveExported_Ambient:
  "ModifierFlags.Ambient \<in> getCombinedModifierFlags node \<Longrightarrow>
   resolveExported context container node k = Inr True"
  by (simp add: resolveExported_def Let_def)

lemma created_nth:
  assumes "deref (heap s) (scope context) = Some container"
  shows "pushChild (scope context) (length (heap s)) (scanned s context container @ [x])
           ! length (heap s) = x"
proof -
  have "scope context < length (scanned s context container)"
    using assms by (simp add: deref_Some)
  from pushChild_nth[OF this, of "length (heap s)" x] this show ?thesis by simp
qed

lemma triggered_after_createDeclaration:
  assumes "createDeclaration context node k name0 s = Inr (res, s')"
  shows "triggered s' = triggered s @
           (case res of None \<Rightarrow> [] | Some child \<Rightarrow> [(EVENT_CREATE_DECLARATION, child, node)])"
  using assms
proof (cases rule: createDeclaration_Inr_cases)
  case skip
  then show ?thesis by simp
next
  case (create c nm exported cp static)
  then show ?thesis by (simp add: trigger_def registerReflection_def)
next
  case (merge c nm exported cp static child returned r')
  then show ?thesis by (simp add: trigger_def)
qed

lemma mergeFrame_mergeDeclarations:
  "mergeFrame r (snd (mergeDeclarations context r node k))"
  by (simp add: mergeFrame_def mergeDeclarations_def Let_def reconcileKind_frame
      getAllSignatures_def comp_def)

lemma mergeDeclarations_set:
  "Reflection.overwrites r \<noteq> None \<Longrightarrow>
   Reflection.overwrites (snd (mergeDeclarations context r node k)) = Reflection.overwrites r
   \<and> signatures (snd (mergeDeclarations context r node k)) = signatures r"
  by (auto simp: mergeDeclarations_def Let_def reconcileKind_frame)

lemma setupDeclaration_set:
  "Reflection.inheritedFrom r \<noteq> None \<Longrightarrow>
   Reflection.inheritedFrom (setupDeclaration context r node) = Reflection.inheritedFrom r
   \<and> signatures (setupDeclaration context r node) = signatures r"
  by (auto simp: setupDeclaration_def Let_def setFlag_frame)

lemma mergeDeclarations_sig_inheritedFrom:
  "map SignatureReflection.inheritedFrom (signatures (snd (mergeDeclarations context r node k)))
   = map SignatureReflection.inheritedFrom (signatures r)"
  by (simp add: mergeDeclarations_def Let_def reconcileKind_frame getAllSignatures_def comp_def)

lemma scanned_id:
  "deref (heap s) (scope context) = Some container \<Longrightarrow> children container \<noteq> None \<Longrightarrow>
   scanned s context container = heap s"
proof -
  assume c: "deref (heap s) (scope context) = Some container"
    and ch: "children container \<noteq> None"
  then obtain cs where cs: "children container = Some cs" by auto
  have "container\<lparr>children := Some (childrenOrEmpty container)\<rparr> = container"
    using cs by (cases container) (simp add: childrenOrEmpty_def)
  then show ?thesis using c by (simp add: scanned_def deref_Some)
qed

lemma findChild_cong:
  "(\<And>n. n \<in> set cs \<Longrightarrow> matchesChild h' nm static n = matchesChild h nm static n) \<Longrightarrow>
   findChild h' cs nm static = findChild h cs nm static"
  by (induction cs rule: rev_induct) (simp_all add: findChild_snoc, simp add: findChild_def)

lemma findChild_scanned:
  assumes "deref (heap s) (scope context) = Some container"
  shows "findChild (scanned s context container) cs nm static = findChild (heap s) cs nm static"
  by (rule findChild_cong)
     (simp add: matchesChild_key sameKeys_childKey[OF sameKeys_scanned[OF assms]])

lemma found_scanned_id:
  assumes c: "deref (heap s) (scope context) = Some container"
    and f: "findChild (heap s) (childrenOrEmpty container) nm static = Some child"
  shows "scanned s context container = heap s"
proof -
  have "child \<in> set (childrenOrEmpty container)" using findChild_Some[OF f] by simp
  then have "children container \<noteq> None"
    by (cases "children container") (simp_all add: childrenOrEmpty_def)
  then show ?thesis using scanned_id[OF c] by simp
qed

lemma untouched_merge: "untouched r (snd (mergeDeclarations context r node k))"
  by (simp add: untouched_def mergeDeclarations_frame mergeDeclarations_set
      mergeDeclarations_sig_inheritedFrom)

lemma untouched_children: "untouched r (r\<lparr>children := cs\<rparr>)"
  by (simp add: untouched_def)

lemma untouched_refl: "untouched r r"
  by (simp add: untouched_def)

lemma untouched_trans: "untouched r r' \<Longrightarrow> untouched r' r'' \<Longrightarrow> untouched r r''"
  by (auto simp: untouched_def)

lemma untouched_scanned:
  assumes "deref (heap s) (scope context) = Some container" and "n < length (heap s)"
  shows "untouched (heap s ! n) (scanned s context container ! n)"
  using assms by (auto simp: scanned_nth untouched_def deref_Some)

lemma createDeclaration_untouched:
  assumes r: "createDeclaration context node k name0 s = Inr (res, s')"
    and n: "n < length (heap s)"
  shows "untouched (heap s ! n) (heap s' ! n)"
  using r
proof (cases rule: createDeclaration_Inr_cases)
  case skip
  then show ?thesis by (simp add: untouched_refl)
next
  case (create c nm exported cp static)
  let ?h1 = "scanned s context c"
  have sc: "scope context < length ?h1" using create(1) by (simp add: deref_Some)
  have "heap s' ! n = pushChild (scope context) (length ?h1)
          (?h1 @ [createChild context node k nm static
                    (ModifierFlags.Private \<in> getCombinedModifierFlags node) cp exported]) ! n"
    using create(10) by (simp add: trigger_def registerReflection_def)
  also have "\<dots> = (if n = scope context
                    then (?h1 ! scope context)
                           \<lparr>children := Some (childrenOrEmpty (?h1 ! scope context) @ [length ?h1])\<rparr>
                    else ?h1 ! n)"
    using pushChild_nth[OF sc, of n] n by simp
  finally have "untouched (?h1 ! n) (heap s' ! n)"
    by (simp add: untouched_children untouched_refl)
  with untouched_scanned[OF create(1) n] show ?thesis by (rule untouched_trans)
next
  case (merge c nm exported cp static child returned r')
  let ?h1 = "scanned s context c"
  have r': "r' = snd (mergeDeclarations context (?h1 ! child) node k)" using merge(9) by simp
  have "heap s' ! n = (?h1[child := r']) ! n" using merge(11) by (simp add: trigger_def)
  then have "untouched (?h1 ! n) (heap s' ! n)"
    using n r' by (cases "n = child") (simp_all add: untouched_merge untouched_refl)
  with untouched_scanned[OF merge(1) n] show ?thesis by (rule untouched_trans)
qed

lemma createDeclaration_found:
  assumes rs: "reachesScan context node k name0 s container nm exported"
    and f: "findChild (heap s) (childrenOrEmpty container) nm
              (snd (resolveStatic container node k)) = Some child"
  shows "createDeclaration context node k name0 s =
           (if fst (mergeDeclarations context (heap s ! child) node k)
            then Inr (Some child, trigger EVENT_CREATE_DECLARATION child node
                   (s\<lparr>heap := (heap s)
                       [child := snd (mergeDeclarations context (heap s ! child) node k)]\<rparr>))
            else Inr (None, s\<lparr>heap := (heap s)
                       [child := snd (mergeDeclarations context (heap s ! child) node k)]\<rparr>))"
proof -
  have c: "deref (heap s) (scope context) = Some container"
    using rs by (simp add: reachesScan_def)
  have id: "scanned s context container = heap s" by (rule found_scanned_id[OF c f])
  obtain cp static where st: "resolveStatic container node k = (cp, static)"
    by (cases "resolveStatic container node k")
  obtain returned r' where m: "mergeDeclarations context (heap s ! child) node k = (returned, r')"
    by (cases "mergeDeclarations context (heap s ! child) node k")
  have "createDeclaration context node k name0 s =
           (if returned
            then Inr (Some child, trigger EVENT_CREATE_DECLARATION child node
                        (s\<lparr>heap := (scanned s context container)[child := r']\<rparr>))
            else Inr (None, s\<lparr>heap := (scanned s context container)[child := r']\<rparr>))"
    using rs f st m
    by (intro createDeclaration_merge[where exported = exported and cp = cp and static = static])
       (auto simp: reachesScan_def id)
  then show ?thesis by (simp add: id m)
qed

lemma createDeclaration_fresh:
  assumes rs: "reachesScan context node k name0 s container nm exported"
    and f: "findChild (heap s) (childrenOrEmpty container) nm
              (snd (resolveStatic container node k)) = None"
  shows "createDeclaration context node k name0 s =
           Inr (Some (length (heap s)),
                trigger EVENT_CREATE_DECLARATION (length (heap s)) node
                  (registerReflection (length (heap s)) node
                     (s\<lparr>heap := pushChild (scope context) (length (heap s))
                          (scanned s context container
                            @ [createChild context node k nm
                                (snd (resolveStatic container node k))
                                (ModifierFlags.Private \<in> getCombinedModifierFlags node)
                                (fst (resolveStatic container node k)) exported])\<rparr>)))"
proof -
  have c: "deref (heap s) (scope context) = Some container"
    using rs by (simp add: reachesScan_def)
  show ?thesis
    using rs f
    by (intro createDeclaration_create)
       (auto simp: reachesScan_def findChild_scanned[OF c])
qed

lemma found_in_store:
  "findChild h cs nm static = Some child \<Longrightarrow>
   child < length h \<and> Reflection.name (h ! child) = nm \<and> isStatic (flags (h ! child)) = static"
  using findChild_Some matchesChild_deref by blast

lemma mergeDeclarations_override:
  assumes "isInherit context"
    and "Reflection.name r \<in> set (inherited context)"
    and "Node.parent node = inheritParent context \<or> isConstructorProperty (flags r)"
  shows "mergeDeclarations context r node k =
           (False,
            if Reflection.overwrites r = None
            then (reconcileKind r k)
                 \<lparr>signatures :=
                    map (\<lambda>g. g\<lparr>SignatureReflection.overwrites :=
                                  Some (createReferenceType context (symbol node) True)\<rparr>)
                      (signatures r),
                  overwrites := Some (createReferenceType context (symbol node) True)\<rparr>
            else reconcileKind r k)"
proof -
  have "indexOf (inherited context) (Reflection.name r) \<noteq> - 1"
    using assms(2) by (simp add: indexOf_absent)
  then show ?thesis
    using assms(1,3)
    by (simp add: mergeDeclarations_def Let_def reconcileKind_frame getAllSignatures_def)
qed

lemma resolveStatic_constructor:
  assumes "indexOf nonStaticKinds k = - 1" and "Reflection.kind container = ReflectionKind.Class"
    and "Node.parent node = Some p" and "Node.kind p = SyntaxKind.Constructor"
  shows "resolveStatic container node k = (True, ModifierFlags.Static \<in> getCombinedModifierFlags node)"
  using assms by (simp add: resolveStatic_def Let_def)

lemma resolveStatic_forced:
  assumes "indexOf nonStaticKinds k = - 1" and "Reflection.kind container = ReflectionKind.Class"
    and "Node.parent node = None
         \<or> (Node.parent node = Some p \<and> Node.kind p \<noteq> SyntaxKind.Constructor
            \<and> Node.kind p \<noteq> SyntaxKind.ClassDeclaration)"
  shows "resolveStatic container node k = (False, True)"
  using assms by (auto simp: resolveStatic_def Let_def)

lemma createDeclaration_new_flags:
  assumes rs: "reachesScan context node k name0 s container nm exported"
    and f: "findChild (heap s) (childrenOrEmpty container) nm
              (snd (resolveStatic container node k)) = None"
  shows "\<exists>s1. createDeclaration context node k name0 s = Inr (Some (length (heap s)), s1)
          \<and> isConstructorProperty (flags (heap s1 ! length (heap s)))
              = fst (resolveStatic container node k)
          \<and> isStatic (flags (heap s1 ! length (heap s)))
              = snd (resolveStatic container node k)"
proof -
  have c: "deref (heap s) (scope context) = Some container"
    using rs by (simp add: reachesScan_def)
  show ?thesis
    unfolding createDeclaration_fresh[OF rs f]
    by (simp add: trigger_def registerReflection_def created_nth[OF c] createChild_flags)
qed

lemma createDeclaration_result_static:
  assumes r: "createDeclaration context node k name0 s = Inr (Some child, s')"
    and c: "deref (heap s) (scope context) = Some container"
  shows "isStatic (flags (heap s' ! child)) = snd (resolveStatic container node k)"
  using r
proof (cases rule: createDeclaration_Inr_cases)
  case skip
  then show ?thesis by simp
next
  case (create c' nm exported cp static)
  have eq: "c' = container" using create(1) c by simp
  show ?thesis
    using create(7,9,10) created_nth[OF create(1)] unfolding eq
    by (simp add: trigger_def registerReflection_def createChild_flags)
next
  case (merge c' nm exported cp static ch returned r')
  have eq: "c' = container" using merge(1) c by simp
  let ?h1 = "scanned s context container"
  have f: "ch < length ?h1 \<and> isStatic (flags (?h1 ! ch)) = static"
    using found_in_store[OF merge(8)[unfolded eq]] by simp
  have r': "r' = snd (mergeDeclarations context (?h1 ! ch) node k)"
    using merge(9) unfolding eq by simp
  have "returned" "child = ch" using merge(10) by (simp_all split: if_splits)
  then have "heap s' ! child = r'" using merge(11) f unfolding eq by (simp add: trigger_def)
  then show ?thesis using f r' merge(7) unfolding eq by (simp add: mergeDeclarations_frame)
qed

lemma no_child_named:
  assumes "\<forall>n\<in>set cs. map_option Reflection.name (deref h n) \<noteq> Some nm"
  shows "findChild h cs nm static = None"
  using assms by (auto simp: findChild_None matchesChild_def split: option.splits)

lemma createDeclaration_children:
  assumes r: "createDeclaration context node k name0 s = Inr (res, s')"
    and c: "deref (heap s) (scope context) = Some container"
  shows "childrenOrEmpty (heap s' ! scope context) = childrenOrEmpty container
         \<or> (\<exists>nm. resolveName name0 node = Some nm
              \<and> childrenOrEmpty (heap s' ! scope context)
                  = childrenOrEmpty container @ [length (heap s)]
              \<and> childKey (heap s') (length (heap s))
                  = Some (nm, snd (resolveStatic container node k))
              \<and> (\<forall>n\<in>set (childrenOrEmpty container).
                    childKey (heap s) n \<noteq> Some (nm, snd (resolveStatic container node k))))"
  using r
proof (cases rule: createDeclaration_Inr_cases)
  case skip
  then show ?thesis using c by (simp add: deref_Some)
next
  case (create c' nm exported cp static)
  have eq: "c' = container" using create(1) c by simp
  let ?h1 = "scanned s context container"
  let ?x = "createChild context node k nm static
              (ModifierFlags.Private \<in> getCombinedModifierFlags node) cp exported"
  have sc: "scope context < length ?h1" using c by (simp add: deref_Some)
  have h': "heap s' = pushChild (scope context) (length ?h1) (?h1 @ [?x])"
    using create(10) unfolding eq by (simp add: trigger_def registerReflection_def)
  have 1: "childrenOrEmpty (heap s' ! scope context) = childrenOrEmpty container @ [length (heap s)]"
    unfolding h' using pushChild_nth[OF sc, of "scope context" ?x] sc c
    by (simp add: scanned_nth)
  have 2: "childKey (heap s') (length (heap s)) = Some (nm, static)"
    unfolding h' using pushChild_nth[OF sc, of "length ?h1" ?x] sc
    by (simp add: childKey_def deref_def createChild_fields createChild_flags)
  have 3: "\<forall>n\<in>set (childrenOrEmpty container). childKey (heap s) n \<noteq> Some (nm, static)"
    using create(8) unfolding eq findChild_scanned[OF c]
    by (simp add: findChild_None matchesChild_key)
  show ?thesis using 1 2 3 create(3,7) unfolding eq by simp
next
  case (merge c' nm exported cp static child returned r')
  have eq: "c' = container" using merge(1) c by simp
  let ?h1 = "scanned s context container"
  have sc: "scope context < length ?h1" using c by (simp add: deref_Some)
  have ch: "child < length ?h1" using found_in_store[OF merge(8)] unfolding eq by simp
  have r': "r' = snd (mergeDeclarations context (?h1 ! child) node k)"
    using merge(9) unfolding eq by simp
  have "heap s' = ?h1[child := r']" using merge(11) unfolding eq by (simp add: trigger_def)
  then have "childrenOrEmpty (heap s' ! scope context) = childrenOrEmpty (?h1 ! scope context)"
    using sc r' by (cases "scope context = child")
      (simp_all add: childrenOrEmpty_def mergeDeclarations_frame)
  then show ?thesis using c sc by (simp add: scanned_nth)
qed

lemma uniqueChildren_no_children:
  "list_all (\<lambda>r. childrenOrEmpty r = []) h \<Longrightarrow> uniqueChildren h"
  by (simp add: uniqueChildren_def list_all_iff)

lemmas prop_defs = uniqueChildren_def childKey_def invokeAll_def reachesScan_def mergeFrame_def

section \<open>The claims\<close>

subsection \<open>No two children with the same name and static flag\<close>

text \<open>
  Claim C1. In a store where no object has two children with the same pair
  \<open>(name, isStatic)\<close>, that is so again after every sequence of invocations of
  \<^verbatim>\<open>createDeclaration\<close>, whatever their contexts, scopes, nodes, kinds and names; a
  store in which no object has children yet is such a store. And an invocation leaves
  the children of its container as they are, or appends exactly the new reflection,
  whose pair is the resolved name and static flag, and then no child of the container
  had that pair before.
\<close>

theorem createDeclaration_children_unique:
  "(uniqueChildren (heap s) \<longrightarrow> uniqueChildren (heap (invokeAll calls s)))
   \<and> (list_all (\<lambda>r. childrenOrEmpty r = []) (heap s)
       \<longrightarrow> uniqueChildren (heap (invokeAll calls s)))
   \<and> (createDeclaration context node k name0 s = Inr (res, s')
      \<and> deref (heap s) (scope context) = Some container
    \<longrightarrow> childrenOrEmpty (heap s' ! scope context) = childrenOrEmpty container
        \<or> (\<exists>nm. resolveName name0 node = Some nm
              \<and> childrenOrEmpty (heap s' ! scope context)
                  = childrenOrEmpty container @ [length (heap s)]
              \<and> childKey (heap s') (length (heap s))
                  = Some (nm, snd (resolveStatic container node k))
              \<and> (\<forall>n\<in>set (childrenOrEmpty container).
                    childKey (heap s) n \<noteq> Some (nm, snd (resolveStatic container node k)))))"
  using invokeAll_unique createDeclaration_children uniqueChildren_no_children by blast

text \<open>
  The class with no children satisfies the invariant. Creating \<^verbatim>\<open>reset\<close>, creating it
  again and creating \<^verbatim>\<open>x\<close> keeps it, and the first call appends the reference \<open>1\<close>
  with the pair \<open>(reset, True)\<close>.
\<close>

theorem createDeclaration_children_unique_witness:
  "list_all (\<lambda>r. childrenOrEmpty r = []) (heap classState)
   \<and> uniqueChildren (heap classState)
   \<and> uniqueChildren (heap (invokeAll
        [(plainContext, methodNode, ReflectionKind.Method, None),
         (plainContext, methodNode, ReflectionKind.Method, None),
         (plainContext, parameterNode, ReflectionKind.Property, None)] classState))
   \<and> createDeclaration plainContext methodNode ReflectionKind.Method None classState
       = Inr (Some 1, memberState)
   \<and> deref (heap classState) (scope plainContext) = Some classReflection
   \<and> childrenOrEmpty (heap memberState ! scope plainContext)
       = childrenOrEmpty classReflection @ [length (heap classState)]
   \<and> childKey (heap memberState) (length (heap classState)) = Some (''reset'', True)"
proof -
  have n: "list_all (\<lambda>r. childrenOrEmpty r = []) (heap classState)"
    by (simp add: model_defs example_defs)
  have u: "uniqueChildren (heap classState)"
    by (simp add: prop_defs model_defs example_defs)
  have c: "createDeclaration plainContext methodNode ReflectionKind.Method None classState
             = Inr (Some 1, memberState)"
    by (simp add: model_defs example_defs Let_def)
  have d: "deref (heap classState) (scope plainContext) = Some classReflection"
    by (simp add: model_defs example_defs)
  have e: "childrenOrEmpty (heap memberState ! scope plainContext)
             = childrenOrEmpty classReflection @ [length (heap classState)]"
    by (simp add: model_defs example_defs)
  have f: "childKey (heap memberState) (length (heap classState)) = Some (''reset'', True)"
    by (simp add: prop_defs model_defs example_defs)
  from n u c d e f
    createDeclaration_children_unique[of classState
      "[(plainContext, methodNode, ReflectionKind.Method, None),
        (plainContext, methodNode, ReflectionKind.Method, None),
        (plainContext, parameterNode, ReflectionKind.Property, None)]"
      plainContext methodNode ReflectionKind.Method None "Some 1" memberState classReflection]
  show ?thesis by blast
qed

subsection \<open>Kind reconciliation\<close>

text \<open>
  Claim C2, as the code has it. The merge compares the indices of the two kinds in
  \<^verbatim>\<open>[Module, Enum, Class]\<close>, where a kind that is not in the list has the index
  \<open>-1\<close>: the kind of the existing reflection becomes the incoming kind exactly when the
  index of the incoming kind is greater. So an incoming kind that is not in the list
  never changes the kind, an existing kind that is not in the list is replaced by every
  incoming kind that is in the list, the index never decreases, a module merged with a
  class becomes a class, and a class merged with a module stays a class.
\<close>

theorem mergeDeclarations_kind_weights:
  "Reflection.kind (snd (mergeDeclarations context r node k)) =
     (if indexOf weights k > indexOf weights (Reflection.kind r) then k else Reflection.kind r)
   \<and> (k \<notin> set weights \<longrightarrow>
        Reflection.kind (snd (mergeDeclarations context r node k)) = Reflection.kind r)
   \<and> (Reflection.kind r \<notin> set weights \<and> k \<in> set weights \<longrightarrow>
        Reflection.kind (snd (mergeDeclarations context r node k)) = k)
   \<and> indexOf weights (Reflection.kind r)
        \<le> indexOf weights (Reflection.kind (snd (mergeDeclarations context r node k)))
   \<and> (Reflection.kind r = ReflectionKind.Module \<and> k = ReflectionKind.Class \<longrightarrow>
        Reflection.kind (snd (mergeDeclarations context r node k)) = ReflectionKind.Class)
   \<and> (Reflection.kind r = ReflectionKind.Class \<and> k = ReflectionKind.Module \<longrightarrow>
        Reflection.kind (snd (mergeDeclarations context r node k)) = ReflectionKind.Class)"
proof -
  let ?k' = "Reflection.kind (snd (mergeDeclarations context r node k))"
  have eq: "?k' = (if indexOf weights k > indexOf weights (Reflection.kind r) then k
                   else Reflection.kind r)"
    by (simp add: kind_mergeDeclarations kind_reconcileKind)
  have a: "k \<notin> set weights \<longrightarrow> ?k' = Reflection.kind r"
  proof
    assume "k \<notin> set weights"
    then have "indexOf weights k = - 1" by (simp add: indexOf_absent)
    moreover have "- 1 \<le> indexOf weights (Reflection.kind r)" by (rule indexOf_ge)
    ultimately show "?k' = Reflection.kind r" using eq by simp
  qed
  have b: "Reflection.kind r \<notin> set weights \<and> k \<in> set weights \<longrightarrow> ?k' = k"
  proof
    assume h: "Reflection.kind r \<notin> set weights \<and> k \<in> set weights"
    then have "indexOf weights (Reflection.kind r) = - 1" by (simp add: indexOf_absent)
    moreover have "indexOf weights k \<noteq> - 1" using h by (simp add: indexOf_absent)
    moreover have "- 1 \<le> indexOf weights k" by (rule indexOf_ge)
    ultimately show "?k' = k" using eq by simp
  qed
  have c: "indexOf weights (Reflection.kind r) \<le> indexOf weights ?k'"
    using eq by (simp split: if_splits)
  have d: "Reflection.kind r = ReflectionKind.Module \<and> k = ReflectionKind.Class \<longrightarrow>
             ?k' = ReflectionKind.Class"
    by (simp add: kind_mergeDeclarations kind_reconcileKind indexOf_weights_cases)
  have e: "Reflection.kind r = ReflectionKind.Class \<and> k = ReflectionKind.Module \<longrightarrow>
             ?k' = ReflectionKind.Class"
    by (simp add: kind_mergeDeclarations kind_reconcileKind indexOf_weights_cases)
  from eq a b c d e show ?thesis by blast
qed

text \<open>
  An interface merged with a namespace of the same name: \<^verbatim>\<open>Interface\<close> is not in the
  list, and the merge changes the kind of the existing reflection to \<^verbatim>\<open>Module\<close>.
\<close>

theorem mergeDeclarations_unranked_kind_counterexample:
  "Reflection.kind interfaceReflection = ReflectionKind.Interface
   \<and> ReflectionKind.Interface \<notin> set weights
   \<and> Reflection.kind (snd (mergeDeclarations plainContext interfaceReflection namespaceNode
                             ReflectionKind.Module)) = ReflectionKind.Module
   \<and> Reflection.kind (snd (mergeDeclarations plainContext interfaceReflection namespaceNode
                             ReflectionKind.Module)) \<noteq> Reflection.kind interfaceReflection"
  by (simp add: model_defs example_defs Let_def)

text \<open>
  A module merged with a class, a class merged with a module, a class merged with a
  method, and an interface merged with a module.
\<close>

theorem mergeDeclarations_kind_weights_witness:
  "Reflection.kind moduleReflection = ReflectionKind.Module
   \<and> Reflection.kind (snd (mergeDeclarations plainContext moduleReflection classNode
                             ReflectionKind.Class)) = ReflectionKind.Class
   \<and> Reflection.kind classReflection = ReflectionKind.Class
   \<and> Reflection.kind (snd (mergeDeclarations plainContext classReflection namespaceNode
                             ReflectionKind.Module)) = ReflectionKind.Class
   \<and> ReflectionKind.Method \<notin> set weights
   \<and> Reflection.kind (snd (mergeDeclarations plainContext classReflection namespaceNode
                             ReflectionKind.Method)) = ReflectionKind.Class
   \<and> ReflectionKind.Interface \<notin> set weights \<and> ReflectionKind.Module \<in> set weights
   \<and> Reflection.kind (snd (mergeDeclarations plainContext interfaceReflection namespaceNode
                             ReflectionKind.Module)) = ReflectionKind.Module"
  using mergeDeclarations_kind_weights[of plainContext moduleReflection classNode ReflectionKind.Class]
    mergeDeclarations_kind_weights[of plainContext classReflection namespaceNode ReflectionKind.Module]
    mergeDeclarations_kind_weights[of plainContext classReflection namespaceNode ReflectionKind.Method]
    mergeDeclarations_kind_weights[of plainContext interfaceReflection namespaceNode ReflectionKind.Module]
  by (simp add: weights_def moduleReflection_def classReflection_def interfaceReflection_def)

subsection \<open>Exclusion of what is not exported\<close>

text \<open>
  Claim C3. When the exported state of a named node in a container resolves to false and
  the converter excludes what is not exported, \<^verbatim>\<open>createDeclaration\<close> returns
  \<^verbatim>\<open>null\<close> and changes nothing, whatever the private and static modifiers of the node
  and whether or not the context is inheriting. In particular: in a container that is not
  exported (and is not the project), outside of a declaration file, the exported state of
  a private static method of a class resolves to false, and with the exclusion
  configured the result is \<^verbatim>\<open>null\<close>.
\<close>

theorem createDeclaration_export_exclusion:
  "(deref (heap s) (scope context) = Some container
      \<and> instanceofContainerReflection container
      \<and> resolveName name0 node = Some nm
      \<and> resolveExported context container node k = Inr False
      \<and> excludeNotExported (converter context)
    \<longrightarrow> createDeclaration context node k name0 s = Inr (None, s))
   \<and> (deref (heap s) (scope context) = Some container
      \<and> instanceofContainerReflection container
      \<and> \<not> instanceofProjectReflection container
      \<and> \<not> isExported (flags container)
      \<and> resolveName name0 node = Some nm
      \<and> getCombinedModifierFlags node = {ModifierFlags.Private, ModifierFlags.Static}
      \<and> Node.parent node = Some p \<and> Node.kind p = SyntaxKind.ClassDeclaration
      \<and> k = ReflectionKind.Method
      \<and> \<not> isDeclaration context
      \<and> excludeNotExported (converter context)
    \<longrightarrow> resolveExported context container node k = Inr False
        \<and> createDeclaration context node k name0 s = Inr (None, s))"
  using createDeclaration_skip_export resolveExported_unexported_member by blast

text \<open>
  The private static method \<^verbatim>\<open>reset\<close> in the class \<^verbatim>\<open>Widget\<close>, which is not exported.
\<close>

theorem createDeclaration_export_exclusion_witness:
  "deref (heap classState) (scope excludingContext) = Some classReflection
   \<and> instanceofContainerReflection classReflection
   \<and> \<not> instanceofProjectReflection classReflection
   \<and> \<not> isExported (flags classReflection)
   \<and> resolveName None methodNode = Some ''reset''
   \<and> getCombinedModifierFlags methodNode = {ModifierFlags.Private, ModifierFlags.Static}
   \<and> Node.parent methodNode = Some classNode
   \<and> Node.kind classNode = SyntaxKind.ClassDeclaration
   \<and> \<not> isDeclaration excludingContext
   \<and> excludeNotExported (converter excludingContext)
   \<and> resolveExported excludingContext classReflection methodNode ReflectionKind.Method
       = Inr False
   \<and> createDeclaration excludingContext methodNode ReflectionKind.Method None classState
       = Inr (None, classState)"
proof -
  have h: "deref (heap classState) (scope excludingContext) = Some classReflection
   \<and> instanceofContainerReflection classReflection
   \<and> \<not> instanceofProjectReflection classReflection
   \<and> \<not> isExported (flags classReflection)
   \<and> resolveName None methodNode = Some ''reset''
   \<and> getCombinedModifierFlags methodNode = {ModifierFlags.Private, ModifierFlags.Static}
   \<and> Node.parent methodNode = Some classNode
   \<and> Node.kind classNode = SyntaxKind.ClassDeclaration
   \<and> \<not> isDeclaration excludingContext
   \<and> excludeNotExported (converter excludingContext)"
    by (simp add: model_defs example_defs)
  with createDeclaration_export_exclusion[of classState excludingContext classReflection None
      methodNode "''reset''" ReflectionKind.Method classNode]
  show ?thesis by blast
qed

subsection \<open>Ambient nodes are exported\<close>

text \<open>
  Claim C4. For a node whose modifiers include \<^verbatim>\<open>Ambient\<close> the exported state resolves to
  true, whatever the container, the context, the kind and the other modifiers, and a
  reflection created for the node has \<^verbatim>\<open>isExported\<close> set.
\<close>

theorem resolveExported_ambient_exported:
  "(ModifierFlags.Ambient \<in> getCombinedModifierFlags node
    \<longrightarrow> resolveExported context container node k = Inr True)
   \<and> (ModifierFlags.Ambient \<in> getCombinedModifierFlags node
      \<and> createDeclaration context node k name0 s = Inr (Some (length (heap s)), s')
    \<longrightarrow> isExported (flags (heap s' ! length (heap s))))"
proof (intro conjI impI)
  assume "ModifierFlags.Ambient \<in> getCombinedModifierFlags node"
  then show "resolveExported context container node k = Inr True"
    by (rule resolveExported_Ambient)
next
  assume a: "ModifierFlags.Ambient \<in> getCombinedModifierFlags node
      \<and> createDeclaration context node k name0 s = Inr (Some (length (heap s)), s')"
  then have r: "createDeclaration context node k name0 s = Inr (Some (length (heap s)), s')"
    by simp
  from r show "isExported (flags (heap s' ! length (heap s)))"
  proof (cases rule: createDeclaration_Inr_cases)
    case skip
    then show ?thesis by simp
  next
    case (create c nm exported cp static)
    have "exported" using create(4) resolveExported_Ambient[of node "context" c k] a by simp
    then show ?thesis
      using create(10) created_nth[OF create(1)]
      by (simp add: trigger_def registerReflection_def createChild_flags)
  next
    case (merge c nm exported cp static child returned r')
    have "child < length (heap s)"
      using findChild_Some[OF merge(8)] matchesChild_deref[of "scanned s context c"] by auto
    then show ?thesis using merge(10) by (simp split: if_splits)
  qed
qed

text \<open>
  An ambient function in a module that is not exported.
\<close>

theorem resolveExported_ambient_exported_witness:
  "ModifierFlags.Ambient \<in> getCombinedModifierFlags ambientNode
   \<and> resolveExported plainContext moduleReflection ambientNode (OtherKind 0) = Inr True
   \<and> createDeclaration plainContext ambientNode (OtherKind 0) None moduleState
       = Inr (Some (length (heap moduleState)), helperState)
   \<and> isExported (flags (heap helperState ! length (heap moduleState)))"
proof -
  have a: "ModifierFlags.Ambient \<in> getCombinedModifierFlags ambientNode"
    by (simp add: model_defs example_defs)
  have c: "createDeclaration plainContext ambientNode (OtherKind 0) None moduleState
       = Inr (Some (length (heap moduleState)), helperState)"
    by (simp add: model_defs example_defs Let_def)
  from a c resolveExported_ambient_exported[of ambientNode plainContext moduleReflection
      "OtherKind 0" None moduleState helperState]
  show ?thesis by blast
qed

subsection \<open>Private members are not inherited\<close>

text \<open>
  Claim C5. For a node whose modifiers include \<^verbatim>\<open>Private\<close>, while
  \<^verbatim>\<open>context.isInherit\<close> holds, \<^verbatim>\<open>createDeclaration\<close> produces no reflection: it
  throws, or it returns \<^verbatim>\<open>null\<close> and leaves the state as it is.
\<close>

theorem createDeclaration_private_inherit:
  "ModifierFlags.Private \<in> getCombinedModifierFlags node \<and> isInherit context
   \<longrightarrow> (\<exists>e. createDeclaration context node k name0 s = Inl e)
       \<or> createDeclaration context node k name0 s = Inr (None, s)"
proof
  assume a: "ModifierFlags.Private \<in> getCombinedModifierFlags node \<and> isInherit context"
  show "(\<exists>e. createDeclaration context node k name0 s = Inl e)
        \<or> createDeclaration context node k name0 s = Inr (None, s)"
  proof (cases "createDeclaration context node k name0 s")
    case (Inl e)
    then show ?thesis by blast
  next
    case (Inr p)
    obtain res s' where p: "p = (res, s')" by (cases p)
    have r: "createDeclaration context node k name0 s = Inr (res, s')"
      using Inr p by simp
    from r have "res = None \<and> s' = s"
    proof (cases rule: createDeclaration_Inr_cases)
      case skip
      then show ?thesis by simp
    next
      case (create c nm exported cp static)
      with a show ?thesis by simp
    next
      case (merge c nm exported cp static child returned r')
      with a show ?thesis by simp
    qed
    with r show ?thesis by simp
  qed
qed

text \<open>
  The private method \<^verbatim>\<open>secret\<close> of the base class during the inheritance walk.
\<close>

theorem createDeclaration_private_inherit_witness:
  "ModifierFlags.Private \<in> getCombinedModifierFlags privateMethodNode
   \<and> isInherit inheritContext
   \<and> createDeclaration inheritContext privateMethodNode ReflectionKind.Method None derivedState
       = Inr (None, derivedState)"
proof -
  have a: "ModifierFlags.Private \<in> getCombinedModifierFlags privateMethodNode
           \<and> isInherit inheritContext"
    by (simp add: model_defs example_defs)
  have b: "\<not> (\<exists>e. createDeclaration inheritContext privateMethodNode ReflectionKind.Method None
                    derivedState = Inl e)"
    by (simp add: model_defs example_defs Let_def)
  from a b createDeclaration_private_inherit[of privateMethodNode inheritContext
      ReflectionKind.Method None derivedState]
  show ?thesis by blast
qed

subsection \<open>The provenance references are written once\<close>

text \<open>
  Claim C6. \<^verbatim>\<open>mergeDeclarations\<close> leaves \<^verbatim>\<open>overwrites\<close> and the signatures of a
  reflection whose \<^verbatim>\<open>overwrites\<close> is set as they are, and \<^verbatim>\<open>setupDeclaration\<close> leaves
  \<^verbatim>\<open>inheritedFrom\<close> and the signatures of a reflection whose \<^verbatim>\<open>inheritedFrom\<close> is set
  as they are. And for every object of the store, an invocation of
  \<^verbatim>\<open>createDeclaration\<close> leaves an \<^verbatim>\<open>inheritedFrom\<close> that is set, and the
  \<^verbatim>\<open>inheritedFrom\<close> of the signatures, as they are, and leaves an \<^verbatim>\<open>overwrites\<close> that
  is set, and the signatures, as they are.
\<close>

theorem provenance_write_once:
  "(Reflection.overwrites r \<noteq> None \<longrightarrow>
      Reflection.overwrites (snd (mergeDeclarations context r node k)) = Reflection.overwrites r
      \<and> signatures (snd (mergeDeclarations context r node k)) = signatures r)
   \<and> (Reflection.inheritedFrom r \<noteq> None \<longrightarrow>
      Reflection.inheritedFrom (setupDeclaration context r node) = Reflection.inheritedFrom r
      \<and> signatures (setupDeclaration context r node) = signatures r)
   \<and> (createDeclaration context node k name0 s = Inr (res, s') \<and> n < length (heap s)
        \<and> Reflection.inheritedFrom (heap s ! n) \<noteq> None \<longrightarrow>
      Reflection.inheritedFrom (heap s' ! n) = Reflection.inheritedFrom (heap s ! n)
      \<and> map SignatureReflection.inheritedFrom (signatures (heap s' ! n))
          = map SignatureReflection.inheritedFrom (signatures (heap s ! n)))
   \<and> (createDeclaration context node k name0 s = Inr (res, s') \<and> n < length (heap s)
        \<and> Reflection.overwrites (heap s ! n) \<noteq> None \<longrightarrow>
      Reflection.overwrites (heap s' ! n) = Reflection.overwrites (heap s ! n)
      \<and> signatures (heap s' ! n) = signatures (heap s ! n))"
proof -
  have h: "createDeclaration context node k name0 s = Inr (res, s') \<and> n < length (heap s)
           \<longrightarrow> untouched (heap s ! n) (heap s' ! n)"
    using createDeclaration_untouched by blast
  show ?thesis
    using mergeDeclarations_set[of r "context" node k] setupDeclaration_set[of r "context" node] h
    by (simp add: untouched_def)
qed

text \<open>
  A second overriding merge of \<^verbatim>\<open>render\<close>, whose \<^verbatim>\<open>overwrites\<close> is set, and the setup
  of \<^verbatim>\<open>draw\<close>, whose \<^verbatim>\<open>inheritedFrom\<close> is set.
\<close>

theorem provenance_write_once_witness:
  "Reflection.overwrites renderOverriding \<noteq> None
   \<and> Reflection.overwrites
        (snd (mergeDeclarations inheritContext renderOverriding baseMethodNode
                ReflectionKind.Method)) = Reflection.overwrites renderOverriding
   \<and> signatures (snd (mergeDeclarations inheritContext renderOverriding baseMethodNode
                        ReflectionKind.Method)) = signatures renderOverriding
   \<and> Reflection.inheritedFrom drawInherited \<noteq> None
   \<and> Reflection.inheritedFrom (setupDeclaration inheritContext drawInherited baseMethodNode)
       = Reflection.inheritedFrom drawInherited
   \<and> signatures (setupDeclaration inheritContext drawInherited baseMethodNode)
       = signatures drawInherited
   \<and> createDeclaration inheritContext baseMethodNode ReflectionKind.Method None settledState
       = Inr (None, settledState)
   \<and> Reflection.overwrites (heap settledState ! 1) \<noteq> None
   \<and> Reflection.inheritedFrom (heap settledState ! 2) \<noteq> None"
proof -
  have a: "Reflection.overwrites renderOverriding \<noteq> None"
    by (simp add: example_defs)
  have b: "Reflection.inheritedFrom drawInherited \<noteq> None"
    by (simp add: example_defs)
  have c: "createDeclaration inheritContext baseMethodNode ReflectionKind.Method None settledState
       = Inr (None, settledState)"
    by (simp add: model_defs example_defs Let_def)
  have d: "Reflection.overwrites (heap settledState ! 1) \<noteq> None
           \<and> Reflection.inheritedFrom (heap settledState ! 2) \<noteq> None"
    by (simp add: example_defs)
  from a b c d
    provenance_write_once[of renderOverriding inheritContext baseMethodNode
      ReflectionKind.Method None settledState None settledState 1]
    provenance_write_once[of drawInherited inheritContext baseMethodNode
      ReflectionKind.Method None settledState None settledState 2]
  show ?thesis by blast
qed

subsection \<open>The override check\<close>

text \<open>
  Claim C7, as the code has it. In a merge where \<^verbatim>\<open>context.isInherit\<close> holds, the name of
  the existing reflection is in \<^verbatim>\<open>context.inherited\<close>, and the parent of the node is
  \<^verbatim>\<open>context.inheritParent\<close> or the existing reflection is a constructor property: the
  merge returns \<^verbatim>\<open>null\<close> and \<^verbatim>\<open>overwrites\<close> is set afterwards. If \<^verbatim>\<open>overwrites\<close> was
  not set before, it is now a reference to the symbol of the node, on the reflection and
  on every one of its signatures; if it was set before, it and the signatures are as
  they were. \<^verbatim>\<open>createDeclaration\<close> returns \<^verbatim>\<open>null\<close> for such a node.
\<close>

theorem mergeDeclarations_override_write_once:
  "(isInherit context \<and> Reflection.name r \<in> set (inherited context)
      \<and> (Node.parent node = inheritParent context \<or> isConstructorProperty (flags r))
    \<longrightarrow> \<not> fst (mergeDeclarations context r node k)
        \<and> Reflection.overwrites (snd (mergeDeclarations context r node k)) \<noteq> None
        \<and> (Reflection.overwrites r = None \<longrightarrow>
             Reflection.overwrites (snd (mergeDeclarations context r node k))
               = Some (createReferenceType context (symbol node) True)
             \<and> signatures (snd (mergeDeclarations context r node k))
               = map (\<lambda>g. g\<lparr>SignatureReflection.overwrites :=
                               Some (createReferenceType context (symbol node) True)\<rparr>)
                   (signatures r))
        \<and> (Reflection.overwrites r \<noteq> None \<longrightarrow>
             Reflection.overwrites (snd (mergeDeclarations context r node k))
               = Reflection.overwrites r
             \<and> signatures (snd (mergeDeclarations context r node k)) = signatures r))
   \<and> (reachesScan context node k name0 s container nm exported
      \<and> findChild (heap s) (childrenOrEmpty container) nm
            (snd (resolveStatic container node k)) = Some child
      \<and> isInherit context \<and> Reflection.name (heap s ! child) \<in> set (inherited context)
      \<and> (Node.parent node = inheritParent context
         \<or> isConstructorProperty (flags (heap s ! child)))
    \<longrightarrow> (\<exists>s1. createDeclaration context node k name0 s = Inr (None, s1)
          \<and> Reflection.overwrites (heap s1 ! child) \<noteq> None))"
proof (rule conjI; rule impI)
  assume a: "isInherit context \<and> Reflection.name r \<in> set (inherited context)
      \<and> (Node.parent node = inheritParent context \<or> isConstructorProperty (flags r))"
  then have m: "mergeDeclarations context r node k =
           (False,
            if Reflection.overwrites r = None
            then (reconcileKind r k)
                 \<lparr>signatures :=
                    map (\<lambda>g. g\<lparr>SignatureReflection.overwrites :=
                                  Some (createReferenceType context (symbol node) True)\<rparr>)
                      (signatures r),
                  overwrites := Some (createReferenceType context (symbol node) True)\<rparr>
            else reconcileKind r k)"
    using mergeDeclarations_override by blast
  show "\<not> fst (mergeDeclarations context r node k)
        \<and> Reflection.overwrites (snd (mergeDeclarations context r node k)) \<noteq> None
        \<and> (Reflection.overwrites r = None \<longrightarrow>
             Reflection.overwrites (snd (mergeDeclarations context r node k))
               = Some (createReferenceType context (symbol node) True)
             \<and> signatures (snd (mergeDeclarations context r node k))
               = map (\<lambda>g. g\<lparr>SignatureReflection.overwrites :=
                               Some (createReferenceType context (symbol node) True)\<rparr>)
                   (signatures r))
        \<and> (Reflection.overwrites r \<noteq> None \<longrightarrow>
             Reflection.overwrites (snd (mergeDeclarations context r node k))
               = Reflection.overwrites r
             \<and> signatures (snd (mergeDeclarations context r node k)) = signatures r)"
    by (cases "Reflection.overwrites r") (simp_all add: m reconcileKind_frame)
next
  assume a: "reachesScan context node k name0 s container nm exported
      \<and> findChild (heap s) (childrenOrEmpty container) nm
            (snd (resolveStatic container node k)) = Some child
      \<and> isInherit context \<and> Reflection.name (heap s ! child) \<in> set (inherited context)
      \<and> (Node.parent node = inheritParent context
         \<or> isConstructorProperty (flags (heap s ! child)))"
  let ?m = "mergeDeclarations context (heap s ! child) node k"
  have ch: "child < length (heap s)" using a found_in_store by blast
  have m: "\<not> fst ?m \<and> Reflection.overwrites (snd ?m) \<noteq> None"
    using a mergeDeclarations_override[of "context" "heap s ! child" node k]
    by (cases "Reflection.overwrites (heap s ! child)") (simp_all add: reconcileKind_frame)
  have "createDeclaration context node k name0 s = Inr (None, s\<lparr>heap := (heap s)[child := snd ?m]\<rparr>)"
    using a m createDeclaration_found[of "context" node k name0 s container nm exported child]
    by simp
  then show "\<exists>s1. createDeclaration context node k name0 s = Inr (None, s1)
          \<and> Reflection.overwrites (heap s1 ! child) \<noteq> None"
    using m ch by simp
qed

text \<open>
  The reflection \<^verbatim>\<open>render\<close> already overrides the member of another base type. The
  merge with the method \<^verbatim>\<open>render\<close> of \<^verbatim>\<open>Base\<close> satisfies the three conditions, and
  afterwards \<^verbatim>\<open>overwrites\<close> of the reflection and of its signature still refer to the
  other symbol, not to the symbol of the node.
\<close>

theorem mergeDeclarations_overwrites_counterexample:
  "isInherit inheritContext
   \<and> Reflection.name renderOverriding \<in> set (inherited inheritContext)
   \<and> Node.parent baseMethodNode = inheritParent inheritContext
   \<and> Reflection.overwrites
        (snd (mergeDeclarations inheritContext renderOverriding baseMethodNode
                ReflectionKind.Method)) = Some otherBaseReference
   \<and> map SignatureReflection.overwrites
        (signatures (snd (mergeDeclarations inheritContext renderOverriding baseMethodNode
                ReflectionKind.Method))) = [Some otherBaseReference]
   \<and> Some otherBaseReference
       \<noteq> Some (createReferenceType inheritContext (symbol baseMethodNode) True)"
  by (simp add: model_defs example_defs Let_def)

text \<open>
  The first overriding merge of \<^verbatim>\<open>render\<close>, a second one, and the call of
  \<^verbatim>\<open>createDeclaration\<close> during the inheritance walk.
\<close>

theorem mergeDeclarations_override_write_once_witness:
  "isInherit inheritContext
   \<and> Reflection.name renderReflection \<in> set (inherited inheritContext)
   \<and> Node.parent baseMethodNode = inheritParent inheritContext
   \<and> Reflection.overwrites renderReflection = None
   \<and> \<not> fst (mergeDeclarations inheritContext renderReflection baseMethodNode
               ReflectionKind.Method)
   \<and> Reflection.overwrites
        (snd (mergeDeclarations inheritContext renderReflection baseMethodNode
                ReflectionKind.Method))
       = Some (createReferenceType inheritContext (symbol baseMethodNode) True)
   \<and> Reflection.name renderOverriding \<in> set (inherited inheritContext)
   \<and> Reflection.overwrites renderOverriding \<noteq> None
   \<and> Reflection.overwrites
        (snd (mergeDeclarations inheritContext renderOverriding baseMethodNode
                ReflectionKind.Method)) = Reflection.overwrites renderOverriding
   \<and> reachesScan inheritContext baseMethodNode ReflectionKind.Method None derivedState
        (classReflection\<lparr>children := Some [1, 2]\<rparr>) ''render'' False
   \<and> findChild (heap derivedState)
        (childrenOrEmpty (classReflection\<lparr>children := Some [1, 2]\<rparr>)) ''render''
        (snd (resolveStatic (classReflection\<lparr>children := Some [1, 2]\<rparr>) baseMethodNode
                ReflectionKind.Method)) = Some 2
   \<and> Reflection.name (heap derivedState ! 2) \<in> set (inherited inheritContext)
   \<and> createDeclaration inheritContext baseMethodNode ReflectionKind.Method None derivedState
       = Inr (None, overriddenState)
   \<and> Reflection.overwrites (heap overriddenState ! 2) \<noteq> None"
proof -
  have a: "isInherit inheritContext
   \<and> Reflection.name renderReflection \<in> set (inherited inheritContext)
   \<and> Node.parent baseMethodNode = inheritParent inheritContext
   \<and> Reflection.overwrites renderReflection = None"
    by (simp add: example_defs)
  have b: "Reflection.name renderOverriding \<in> set (inherited inheritContext)
   \<and> Reflection.overwrites renderOverriding \<noteq> None"
    by (simp add: example_defs)
  have r: "reachesScan inheritContext baseMethodNode ReflectionKind.Method None derivedState
        (classReflection\<lparr>children := Some [1, 2]\<rparr>) ''render'' False
   \<and> findChild (heap derivedState)
        (childrenOrEmpty (classReflection\<lparr>children := Some [1, 2]\<rparr>)) ''render''
        (snd (resolveStatic (classReflection\<lparr>children := Some [1, 2]\<rparr>) baseMethodNode
                ReflectionKind.Method)) = Some 2
   \<and> Reflection.name (heap derivedState ! 2) \<in> set (inherited inheritContext)"
    by (simp add: prop_defs model_defs example_defs Let_def)
  have c: "createDeclaration inheritContext baseMethodNode ReflectionKind.Method None derivedState
       = Inr (None, overriddenState)"
    by (simp add: model_defs example_defs Let_def)
  from a mergeDeclarations_override_write_once[of inheritContext renderReflection baseMethodNode
      ReflectionKind.Method]
  have 1: "\<not> fst (mergeDeclarations inheritContext renderReflection baseMethodNode
               ReflectionKind.Method)
   \<and> Reflection.overwrites
        (snd (mergeDeclarations inheritContext renderReflection baseMethodNode
                ReflectionKind.Method))
       = Some (createReferenceType inheritContext (symbol baseMethodNode) True)"
    by blast
  from a b mergeDeclarations_override_write_once[of inheritContext renderOverriding
      baseMethodNode ReflectionKind.Method]
  have 2: "Reflection.overwrites
        (snd (mergeDeclarations inheritContext renderOverriding baseMethodNode
                ReflectionKind.Method)) = Reflection.overwrites renderOverriding"
    by blast
  from a r mergeDeclarations_override_write_once[of inheritContext _ baseMethodNode
      ReflectionKind.Method None derivedState "classReflection\<lparr>children := Some [1, 2]\<rparr>"
      "''render''" False 2]
  have "\<exists>s1. createDeclaration inheritContext baseMethodNode ReflectionKind.Method None
               derivedState = Inr (None, s1)
          \<and> Reflection.overwrites (heap s1 ! 2) \<noteq> None"
    by blast
  then have 3: "Reflection.overwrites (heap overriddenState ! 2) \<noteq> None"
    unfolding c by simp
  from a b r c 1 2 3 show ?thesis by blast
qed

subsection \<open>Constructor properties and forced static members of a class\<close>

text \<open>
  Claim C8, as the code has it. For a kind other than \<^verbatim>\<open>Class\<close>, \<^verbatim>\<open>Interface\<close> and
  \<^verbatim>\<open>Module\<close> and a container of kind \<^verbatim>\<open>Class\<close>: if the parent of the node is a
  constructor, the constructor property flag resolves to true and the static flag to the
  static modifier of the node; otherwise, if the parent is absent or is not a class
  declaration, the static flag resolves to true. A reflection that the call creates,
  when no child has the resolved name and static flag, carries both resolved flags; a
  reflection that the call returns, created or merged, has the resolved static flag,
  and a merged one keeps the constructor property flag it had. For a constructor
  parameter property that is not static and whose name no child has, the new reflection
  has \<^verbatim>\<open>isConstructorProperty = true\<close> and \<^verbatim>\<open>isStatic = false\<close>.
\<close>

theorem createDeclaration_class_member_flags:
  "(indexOf nonStaticKinds k = - 1 \<and> Reflection.kind container = ReflectionKind.Class
      \<and> Node.parent node = Some p \<and> Node.kind p = SyntaxKind.Constructor
    \<longrightarrow> resolveStatic container node k
          = (True, ModifierFlags.Static \<in> getCombinedModifierFlags node))
   \<and> (indexOf nonStaticKinds k = - 1 \<and> Reflection.kind container = ReflectionKind.Class
      \<and> (Node.parent node = None
         \<or> (Node.parent node = Some p \<and> Node.kind p \<noteq> SyntaxKind.Constructor
            \<and> Node.kind p \<noteq> SyntaxKind.ClassDeclaration))
    \<longrightarrow> resolveStatic container node k = (False, True))
   \<and> (reachesScan context node k name0 s container nm exported
      \<and> findChild (heap s) (childrenOrEmpty container) nm
            (snd (resolveStatic container node k)) = None
    \<longrightarrow> (\<exists>s1. createDeclaration context node k name0 s = Inr (Some (length (heap s)), s1)
          \<and> isConstructorProperty (flags (heap s1 ! length (heap s)))
              = fst (resolveStatic container node k)
          \<and> isStatic (flags (heap s1 ! length (heap s)))
              = snd (resolveStatic container node k)))
   \<and> (createDeclaration context node k name0 s = Inr (Some child, s')
      \<and> deref (heap s) (scope context) = Some container
    \<longrightarrow> isStatic (flags (heap s' ! child)) = snd (resolveStatic container node k))
   \<and> (createDeclaration context node k name0 s = Inr (Some child, s')
      \<and> child < length (heap s)
    \<longrightarrow> isConstructorProperty (flags (heap s' ! child))
          = isConstructorProperty (flags (heap s ! child)))
   \<and> (reachesScan context node k name0 s container nm exported
      \<and> indexOf nonStaticKinds k = - 1 \<and> Reflection.kind container = ReflectionKind.Class
      \<and> Node.parent node = Some p \<and> Node.kind p = SyntaxKind.Constructor
      \<and> ModifierFlags.Static \<notin> getCombinedModifierFlags node
      \<and> (\<forall>n\<in>set (childrenOrEmpty container).
            map_option Reflection.name (deref (heap s) n) \<noteq> Some nm)
    \<longrightarrow> (\<exists>s1. createDeclaration context node k name0 s = Inr (Some (length (heap s)), s1)
          \<and> isConstructorProperty (flags (heap s1 ! length (heap s)))
          \<and> \<not> isStatic (flags (heap s1 ! length (heap s)))))"
proof -
  have a: "indexOf nonStaticKinds k = - 1 \<and> Reflection.kind container = ReflectionKind.Class
      \<and> Node.parent node = Some p \<and> Node.kind p = SyntaxKind.Constructor
    \<longrightarrow> resolveStatic container node k
          = (True, ModifierFlags.Static \<in> getCombinedModifierFlags node)"
    using resolveStatic_constructor by blast
  have b: "indexOf nonStaticKinds k = - 1 \<and> Reflection.kind container = ReflectionKind.Class
      \<and> (Node.parent node = None
         \<or> (Node.parent node = Some p \<and> Node.kind p \<noteq> SyntaxKind.Constructor
            \<and> Node.kind p \<noteq> SyntaxKind.ClassDeclaration))
    \<longrightarrow> resolveStatic container node k = (False, True)"
    using resolveStatic_forced by blast
  have c: "reachesScan context node k name0 s container nm exported
      \<and> findChild (heap s) (childrenOrEmpty container) nm
            (snd (resolveStatic container node k)) = None
    \<longrightarrow> (\<exists>s1. createDeclaration context node k name0 s = Inr (Some (length (heap s)), s1)
          \<and> isConstructorProperty (flags (heap s1 ! length (heap s)))
              = fst (resolveStatic container node k)
          \<and> isStatic (flags (heap s1 ! length (heap s)))
              = snd (resolveStatic container node k))"
    using createDeclaration_new_flags by blast
  have d: "createDeclaration context node k name0 s = Inr (Some child, s')
      \<and> deref (heap s) (scope context) = Some container
    \<longrightarrow> isStatic (flags (heap s' ! child)) = snd (resolveStatic container node k)"
    using createDeclaration_result_static by blast
  have e: "reachesScan context node k name0 s container nm exported
      \<and> indexOf nonStaticKinds k = - 1 \<and> Reflection.kind container = ReflectionKind.Class
      \<and> Node.parent node = Some p \<and> Node.kind p = SyntaxKind.Constructor
      \<and> ModifierFlags.Static \<notin> getCombinedModifierFlags node
      \<and> (\<forall>n\<in>set (childrenOrEmpty container).
            map_option Reflection.name (deref (heap s) n) \<noteq> Some nm)
    \<longrightarrow> (\<exists>s1. createDeclaration context node k name0 s = Inr (Some (length (heap s)), s1)
          \<and> isConstructorProperty (flags (heap s1 ! length (heap s)))
          \<and> \<not> isStatic (flags (heap s1 ! length (heap s))))"
  proof
    assume h: "reachesScan context node k name0 s container nm exported
      \<and> indexOf nonStaticKinds k = - 1 \<and> Reflection.kind container = ReflectionKind.Class
      \<and> Node.parent node = Some p \<and> Node.kind p = SyntaxKind.Constructor
      \<and> ModifierFlags.Static \<notin> getCombinedModifierFlags node
      \<and> (\<forall>n\<in>set (childrenOrEmpty container).
            map_option Reflection.name (deref (heap s) n) \<noteq> Some nm)"
    then have st: "resolveStatic container node k = (True, False)"
      using resolveStatic_constructor[of k container node p] by simp
    have f: "findChild (heap s) (childrenOrEmpty container) nm
               (snd (resolveStatic container node k)) = None"
      using h no_child_named by blast
    have rs: "reachesScan context node k name0 s container nm exported" using h by simp
    show "\<exists>s1. createDeclaration context node k name0 s = Inr (Some (length (heap s)), s1)
          \<and> isConstructorProperty (flags (heap s1 ! length (heap s)))
          \<and> \<not> isStatic (flags (heap s1 ! length (heap s)))"
      using createDeclaration_new_flags[OF rs f] unfolding st by simp
  qed
  have m: "createDeclaration context node k name0 s = Inr (Some child, s')
      \<and> child < length (heap s)
    \<longrightarrow> isConstructorProperty (flags (heap s' ! child))
          = isConstructorProperty (flags (heap s ! child))"
    using createDeclaration_untouched[of "context" node k name0 s "Some child" s' child]
    by (simp add: untouched_def)
  from a b c d m e show ?thesis by (intro conjI)
qed

text \<open>
  The class declares \<^verbatim>\<open>x\<close> itself, and the inheritance walk reaches the constructor
  parameter property \<^verbatim>\<open>x\<close> of the base class: the call merges, and the reflection it
  returns does not have \<^verbatim>\<open>isConstructorProperty\<close>.
\<close>

theorem createDeclaration_constructorProperty_counterexample:
  "indexOf nonStaticKinds ReflectionKind.Property = - 1
   \<and> deref (heap derivedState) (scope inheritContext)
       = Some (classReflection\<lparr>children := Some [1, 2]\<rparr>)
   \<and> Reflection.kind (classReflection\<lparr>children := Some [1, 2]\<rparr>) = ReflectionKind.Class
   \<and> Node.parent baseParameterNode = Some baseConstructorNode
   \<and> Node.kind baseConstructorNode = SyntaxKind.Constructor
   \<and> createDeclaration inheritContext baseParameterNode ReflectionKind.Property None
         derivedState = Inr (Some 1, remergedState)
   \<and> \<not> isConstructorProperty (flags (heap remergedState ! 1))"
  by (simp add: model_defs example_defs Let_def)

text \<open>
  The constructor parameter property \<^verbatim>\<open>x\<close> in the class with no children, and a node
  with no parent.
\<close>

theorem createDeclaration_class_member_flags_witness:
  "indexOf nonStaticKinds ReflectionKind.Property = - 1
   \<and> Reflection.kind classReflection = ReflectionKind.Class
   \<and> Node.parent parameterNode = Some constructorNode
   \<and> Node.kind constructorNode = SyntaxKind.Constructor
   \<and> ModifierFlags.Static \<notin> getCombinedModifierFlags parameterNode
   \<and> resolveStatic classReflection parameterNode ReflectionKind.Property = (True, False)
   \<and> Node.parent namespaceNode = None
   \<and> resolveStatic classReflection namespaceNode ReflectionKind.Property = (False, True)
   \<and> reachesScan plainContext parameterNode ReflectionKind.Property None classState
         classReflection ''x'' False
   \<and> findChild (heap classState) (childrenOrEmpty classReflection) ''x'' False = None
   \<and> createDeclaration plainContext parameterNode ReflectionKind.Property None classState
       = Inr (Some 1, propertyState)
   \<and> isConstructorProperty (flags (heap propertyState ! 1))
   \<and> \<not> isStatic (flags (heap propertyState ! 1))
   \<and> deref (heap classState) (scope plainContext) = Some classReflection
   \<and> isStatic (flags (heap propertyState ! 1))
       = snd (resolveStatic classReflection parameterNode ReflectionKind.Property)
   \<and> createDeclaration inheritContext baseParameterNode ReflectionKind.Property None
         derivedState = Inr (Some 1, remergedState)
   \<and> 1 < length (heap derivedState)
   \<and> isConstructorProperty (flags (heap remergedState ! 1))
       = isConstructorProperty (flags (heap derivedState ! 1))"
proof -
  have a: "indexOf nonStaticKinds ReflectionKind.Property = - 1
   \<and> Reflection.kind classReflection = ReflectionKind.Class
   \<and> Node.parent parameterNode = Some constructorNode
   \<and> Node.kind constructorNode = SyntaxKind.Constructor
   \<and> ModifierFlags.Static \<notin> getCombinedModifierFlags parameterNode
   \<and> Node.parent namespaceNode = None"
    by (simp add: model_defs example_defs)
  have r: "reachesScan plainContext parameterNode ReflectionKind.Property None classState
         classReflection ''x'' False
   \<and> findChild (heap classState) (childrenOrEmpty classReflection) ''x'' False = None
   \<and> (\<forall>n\<in>set (childrenOrEmpty classReflection).
         map_option Reflection.name (deref (heap classState) n) \<noteq> Some ''x'')"
    by (simp add: prop_defs model_defs example_defs Let_def)
  have c: "createDeclaration plainContext parameterNode ReflectionKind.Property None classState
       = Inr (Some 1, propertyState)"
    by (simp add: model_defs example_defs Let_def)
  have l: "length (heap classState) = 1" by (simp add: example_defs)
  from a createDeclaration_class_member_flags[of ReflectionKind.Property classReflection
      parameterNode constructorNode]
  have 1: "resolveStatic classReflection parameterNode ReflectionKind.Property = (True, False)"
    by simp
  from a createDeclaration_class_member_flags[of ReflectionKind.Property classReflection
      namespaceNode]
  have 2: "resolveStatic classReflection namespaceNode ReflectionKind.Property = (False, True)"
    by simp
  from a r createDeclaration_class_member_flags[of ReflectionKind.Property classReflection
      parameterNode constructorNode plainContext None classState "''x''" False]
  have "\<exists>s1. createDeclaration plainContext parameterNode ReflectionKind.Property None
               classState = Inr (Some (length (heap classState)), s1)
          \<and> isConstructorProperty (flags (heap s1 ! length (heap classState)))
          \<and> \<not> isStatic (flags (heap s1 ! length (heap classState)))"
    by blast
  then have 3: "isConstructorProperty (flags (heap propertyState ! 1))
                \<and> \<not> isStatic (flags (heap propertyState ! 1))"
    unfolding c l by simp
  have d: "deref (heap classState) (scope plainContext) = Some classReflection"
    by (simp add: model_defs example_defs)
  from c d createDeclaration_class_member_flags[of ReflectionKind.Property classReflection
      parameterNode constructorNode plainContext None classState "''x''" False 1 propertyState]
  have 4: "isStatic (flags (heap propertyState ! 1))
             = snd (resolveStatic classReflection parameterNode ReflectionKind.Property)"
    by blast
  have m: "createDeclaration inheritContext baseParameterNode ReflectionKind.Property None
             derivedState = Inr (Some 1, remergedState)
           \<and> 1 < length (heap derivedState)"
    by (simp add: model_defs example_defs Let_def)
  from m createDeclaration_class_member_flags[of ReflectionKind.Property _
      baseParameterNode _ inheritContext None derivedState _ _ 1 remergedState]
  have 5: "isConstructorProperty (flags (heap remergedState ! 1))
             = isConstructorProperty (flags (heap derivedState ! 1))"
    by blast
  from a r c 1 2 3 d 4 m 5 show ?thesis by blast
qed

subsection \<open>A merge changes no flag\<close>

text \<open>
  Claim C9. No invocation of \<^verbatim>\<open>createDeclaration\<close> changes a flag of a reflection that
  was in the store before. And an invocation that gets to the scan and finds a child
  returns, creates no object, leaves every other object as it is, and changes of the
  child at most the kind, \<^verbatim>\<open>overwrites\<close> and the \<^verbatim>\<open>overwrites\<close> of its signatures.
\<close>

theorem createDeclaration_merge_frame:
  "(createDeclaration context node k name0 s = Inr (res, s') \<and> n < length (heap s)
    \<longrightarrow> flags (heap s' ! n) = flags (heap s ! n))
   \<and> (reachesScan context node k name0 s container nm exported
      \<and> findChild (heap s) (childrenOrEmpty container) nm
            (snd (resolveStatic container node k)) = Some child
    \<longrightarrow> (\<exists>res1 s1. createDeclaration context node k name0 s = Inr (res1, s1)
          \<and> length (heap s1) = length (heap s)
          \<and> mergeFrame (heap s ! child) (heap s1 ! child)
          \<and> (\<forall>m<length (heap s). m \<noteq> child \<longrightarrow> heap s1 ! m = heap s ! m)))"
proof (intro conjI impI)
  assume "createDeclaration context node k name0 s = Inr (res, s') \<and> n < length (heap s)"
  then have "untouched (heap s ! n) (heap s' ! n)"
    using createDeclaration_untouched by blast
  then show "flags (heap s' ! n) = flags (heap s ! n)" by (simp add: untouched_def)
next
  assume a: "reachesScan context node k name0 s container nm exported
      \<and> findChild (heap s) (childrenOrEmpty container) nm
            (snd (resolveStatic container node k)) = Some child"
  let ?m = "mergeDeclarations context (heap s ! child) node k"
  let ?h = "(heap s)[child := snd ?m]"
  have ch: "child < length (heap s)" using a found_in_store by blast
  have fr: "mergeFrame (heap s ! child) (?h ! child)"
    using ch by (simp add: mergeFrame_mergeDeclarations)
  have ot: "\<forall>m<length (heap s). m \<noteq> child \<longrightarrow> ?h ! m = heap s ! m" by simp
  have "createDeclaration context node k name0 s =
          (if fst ?m then Inr (Some child, trigger EVENT_CREATE_DECLARATION child node
                                 (s\<lparr>heap := ?h\<rparr>))
           else Inr (None, s\<lparr>heap := ?h\<rparr>))"
    using a createDeclaration_found by blast
  then show "\<exists>res1 s1. createDeclaration context node k name0 s = Inr (res1, s1)
          \<and> length (heap s1) = length (heap s)
          \<and> mergeFrame (heap s ! child) (heap s1 ! child)
          \<and> (\<forall>m<length (heap s). m \<noteq> child \<longrightarrow> heap s1 ! m = heap s ! m)"
    using fr ot by (cases "fst ?m") (simp_all add: trigger_def)
qed

text \<open>
  The second call for the method \<^verbatim>\<open>reset\<close>.
\<close>

theorem createDeclaration_merge_frame_witness:
  "reachesScan plainContext methodNode ReflectionKind.Method None memberState
       (classReflection\<lparr>children := Some [1]\<rparr>) ''reset'' False
   \<and> findChild (heap memberState) (childrenOrEmpty (classReflection\<lparr>children := Some [1]\<rparr>))
       ''reset'' (snd (resolveStatic (classReflection\<lparr>children := Some [1]\<rparr>) methodNode
                         ReflectionKind.Method)) = Some 1
   \<and> createDeclaration plainContext methodNode ReflectionKind.Method None memberState
       = Inr (Some 1, mergedState)
   \<and> flags (heap mergedState ! 1) = flags (heap memberState ! 1)
   \<and> mergeFrame (heap memberState ! 1) (heap mergedState ! 1)
   \<and> heap mergedState ! 0 = heap memberState ! 0"
proof -
  have r: "reachesScan plainContext methodNode ReflectionKind.Method None memberState
       (classReflection\<lparr>children := Some [1]\<rparr>) ''reset'' False
   \<and> findChild (heap memberState) (childrenOrEmpty (classReflection\<lparr>children := Some [1]\<rparr>))
       ''reset'' (snd (resolveStatic (classReflection\<lparr>children := Some [1]\<rparr>) methodNode
                         ReflectionKind.Method)) = Some 1"
    by (simp add: prop_defs model_defs example_defs Let_def)
  have c: "createDeclaration plainContext methodNode ReflectionKind.Method None memberState
       = Inr (Some 1, mergedState)"
    by (simp add: model_defs example_defs Let_def)
  have l: "(1::nat) < length (heap memberState) \<and> (0::nat) < length (heap memberState)"
    by (simp add: example_defs)
  from c l createDeclaration_merge_frame[of plainContext methodNode ReflectionKind.Method None
      memberState "Some 1" mergedState 1]
  have 1: "flags (heap mergedState ! 1) = flags (heap memberState ! 1)" by blast
  from r createDeclaration_merge_frame[of plainContext methodNode ReflectionKind.Method None
      memberState _ _ _ "classReflection\<lparr>children := Some [1]\<rparr>" "''reset''" False 1]
  have "\<exists>res1 s1. createDeclaration plainContext methodNode ReflectionKind.Method None
                    memberState = Inr (res1, s1)
          \<and> length (heap s1) = length (heap memberState)
          \<and> mergeFrame (heap memberState ! 1) (heap s1 ! 1)
          \<and> (\<forall>m<length (heap memberState). m \<noteq> 1 \<longrightarrow> heap s1 ! m = heap memberState ! m)"
    by blast
  then have 2: "mergeFrame (heap memberState ! 1) (heap mergedState ! 1)
                \<and> heap mergedState ! 0 = heap memberState ! 0"
    unfolding c using l by auto
  from r c 1 2 show ?thesis by blast
qed

subsection \<open>The creation notification\<close>

text \<open>
  Claim C10. An invocation of \<^verbatim>\<open>createDeclaration\<close> that returns a reflection hands
  exactly one notification to the sink, with that reflection and the node, and an
  invocation that returns \<^verbatim>\<open>null\<close> hands none. A merge that returns the child it found
  is among the former.
\<close>

theorem createDeclaration_trigger:
  "(createDeclaration context node k name0 s = Inr (res, s')
    \<longrightarrow> triggered s' = triggered s @
          (case res of None \<Rightarrow> []
           | Some child \<Rightarrow> [(EVENT_CREATE_DECLARATION, child, node)]))
   \<and> (reachesScan context node k name0 s container nm exported
      \<and> findChild (heap s) (childrenOrEmpty container) nm
            (snd (resolveStatic container node k)) = Some child
      \<and> fst (mergeDeclarations context (heap s ! child) node k)
    \<longrightarrow> (\<exists>s1. createDeclaration context node k name0 s = Inr (Some child, s1)
          \<and> triggered s1 = triggered s @ [(EVENT_CREATE_DECLARATION, child, node)]))"
proof (intro conjI impI)
  assume "createDeclaration context node k name0 s = Inr (res, s')"
  then show "triggered s' = triggered s @
          (case res of None \<Rightarrow> []
           | Some child \<Rightarrow> [(EVENT_CREATE_DECLARATION, child, node)])"
    by (rule triggered_after_createDeclaration)
next
  assume a: "reachesScan context node k name0 s container nm exported
      \<and> findChild (heap s) (childrenOrEmpty container) nm
            (snd (resolveStatic container node k)) = Some child
      \<and> fst (mergeDeclarations context (heap s ! child) node k)"
  then have "createDeclaration context node k name0 s =
          Inr (Some child, trigger EVENT_CREATE_DECLARATION child node
                 (s\<lparr>heap := (heap s)
                     [child := snd (mergeDeclarations context (heap s ! child) node k)]\<rparr>))"
    using createDeclaration_found[of "context" node k name0 s container nm exported child]
    by simp
  then show "\<exists>s1. createDeclaration context node k name0 s = Inr (Some child, s1)
          \<and> triggered s1 = triggered s @ [(EVENT_CREATE_DECLARATION, child, node)]"
    by (simp add: trigger_def)
qed

text \<open>
  The second call for \<^verbatim>\<open>reset\<close>, a merge that returns the reflection and notifies,
  and the overriding merge of \<^verbatim>\<open>render\<close>, which returns \<^verbatim>\<open>null\<close> and does not.
\<close>

theorem createDeclaration_trigger_witness:
  "createDeclaration plainContext methodNode ReflectionKind.Method None memberState
       = Inr (Some 1, mergedState)
   \<and> triggered mergedState
       = triggered memberState @ [(EVENT_CREATE_DECLARATION, 1, methodNode)]
   \<and> createDeclaration inheritContext baseMethodNode ReflectionKind.Method None derivedState
       = Inr (None, overriddenState)
   \<and> triggered overriddenState = triggered derivedState
   \<and> reachesScan plainContext methodNode ReflectionKind.Method None memberState
       (classReflection\<lparr>children := Some [1]\<rparr>) ''reset'' False
   \<and> findChild (heap memberState) (childrenOrEmpty (classReflection\<lparr>children := Some [1]\<rparr>))
       ''reset'' (snd (resolveStatic (classReflection\<lparr>children := Some [1]\<rparr>) methodNode
                         ReflectionKind.Method)) = Some 1
   \<and> fst (mergeDeclarations plainContext (heap memberState ! 1) methodNode
             ReflectionKind.Method)"
proof -
  have c: "createDeclaration plainContext methodNode ReflectionKind.Method None memberState
       = Inr (Some 1, mergedState)"
    by (simp add: model_defs example_defs Let_def)
  have d: "createDeclaration inheritContext baseMethodNode ReflectionKind.Method None derivedState
       = Inr (None, overriddenState)"
    by (simp add: model_defs example_defs Let_def)
  have r: "reachesScan plainContext methodNode ReflectionKind.Method None memberState
       (classReflection\<lparr>children := Some [1]\<rparr>) ''reset'' False
   \<and> findChild (heap memberState) (childrenOrEmpty (classReflection\<lparr>children := Some [1]\<rparr>))
       ''reset'' (snd (resolveStatic (classReflection\<lparr>children := Some [1]\<rparr>) methodNode
                         ReflectionKind.Method)) = Some 1
   \<and> fst (mergeDeclarations plainContext (heap memberState ! 1) methodNode
             ReflectionKind.Method)"
    by (simp add: prop_defs model_defs example_defs Let_def)
  from r createDeclaration_trigger[of plainContext methodNode ReflectionKind.Method None
      memberState _ _ "classReflection\<lparr>children := Some [1]\<rparr>" "''reset''" False 1]
  have "\<exists>s1. createDeclaration plainContext methodNode ReflectionKind.Method None memberState
               = Inr (Some 1, s1)
          \<and> triggered s1 = triggered memberState @ [(EVENT_CREATE_DECLARATION, 1, methodNode)]"
    by blast
  then have 1: "triggered mergedState
             = triggered memberState @ [(EVENT_CREATE_DECLARATION, 1, methodNode)]"
    unfolding c by simp
  from d createDeclaration_trigger[of inheritContext baseMethodNode ReflectionKind.Method None
      derivedState None overriddenState]
  have 2: "triggered overriddenState = triggered derivedState"
    by simp
  from c d r 1 2 show ?thesis by blast
qed

end
